theory Spec2Isabelle
  imports Main "HOL-Library.Word"
begin

unbundle bit_operations_syntax

section \<open>Machine types and memory\<close>

text \<open>
  \<^verbatim>\<open>unsigned int\<close> is a 32-bit word: arithmetic wraps, and the conversion of a
  \<^verbatim>\<open>size_t\<close> to \<^verbatim>\<open>unsigned int\<close> is \<open>of_nat\<close>, which keeps the low 32 bits.
  A \<^verbatim>\<open>size_t\<close> is a natural number (an LP64 target, where it is wider than
  \<^verbatim>\<open>unsigned int\<close>). Where the source subtracts two sizes and narrows the result to
  \<^verbatim>\<open>unsigned int\<close>, the model subtracts the narrowed words, which is the same value
  whether or not the subtraction wraps; the one comparison of a size difference
  against a size uses \<open>size_t_sub\<close>, with the 64-bit wrap written out.
  A pointer is an address, 0 being \<^verbatim>\<open>NULL\<close>. A heap array is the list of its
  elements, and the empty list is the \<^verbatim>\<open>NULL\<close> pointer (a reallocation to zero
  elements returns \<^verbatim>\<open>NULL\<close>).
\<close>

type_synonym byte = "8 word"
type_synonym u_int = "32 word"
type_synonym size_t = nat
type_synonym addr = nat

definition size_t_sub :: "size_t \<Rightarrow> size_t \<Rightarrow> size_t" where
  "size_t_sub a b = (if b \<le> a then a - b else a + 2 ^ 64 - b)"

text \<open>
  \<^verbatim>\<open>VIR_REALLOC_N(ptr, n)\<close>: the array keeps its first elements and has \<open>n\<close> of them
  afterwards. The elements beyond the old size are indeterminate in C; the model
  gives them the value 0, and nothing that a claim says depends on that value.
\<close>

definition VIR_REALLOC_N :: "byte list \<Rightarrow> size_t \<Rightarrow> byte list" where
  "VIR_REALLOC_N ptr n = take n ptr @ replicate (n - length ptr) 0"

fun store_bytes :: "byte list \<Rightarrow> nat \<Rightarrow> byte list \<Rightarrow> byte list" where
  "store_bytes mem a [] = mem"
| "store_bytes mem a (b # bs) = store_bytes (mem[a := b]) (Suc a) bs"

definition load_bytes :: "byte list \<Rightarrow> nat \<Rightarrow> nat \<Rightarrow> byte list" where
  "load_bytes mem a n = take n (drop a mem)"

text \<open>The four bytes of a 32-bit value in network (big-endian) order, and back.\<close>

definition be32_encode :: "u_int \<Rightarrow> byte list" where
  "be32_encode w = [ucast (drop_bit 24 w), ucast (drop_bit 16 w), ucast (drop_bit 8 w), ucast w]"

definition be32_decode :: "byte list \<Rightarrow> u_int" where
  "be32_decode bs = foldl (\<lambda>w b. push_bit 8 w OR ucast b) 0 bs"


section \<open>The XDR memory stream\<close>

text \<open>
  Modelled from the spec: the XDR primitive library that the codec consumes
  (section 6: unsigned 32-bit integer encode and decode with explicit position
  tracking, RFC 4506) is not part of the repository. A memory stream is the
  \<^verbatim>\<open>XDR\<close> handle of \<^verbatim>\<open>xdrmem_create\<close>: the direction, the current address
  \<open>x_private\<close>, the start address \<open>x_base\<close> and the number \<open>x_handy\<close> of bytes left.
  Addresses are indices into the message buffer, which the operations take and
  return beside the handle. An integer takes four bytes, and an operation that
  finds fewer than four bytes left fails and changes nothing.
\<close>

datatype xdr_op = XDR_ENCODE | XDR_DECODE | XDR_FREE

record XDR =
  x_op :: xdr_op
  x_private :: nat
  x_base :: nat
  x_handy :: nat

definition xdrmem_create :: "nat \<Rightarrow> u_int \<Rightarrow> xdr_op \<Rightarrow> XDR" where
  "xdrmem_create a size' op =
     \<lparr>x_op = op, x_private = a, x_base = a, x_handy = unat size'\<rparr>"

definition xdr_getpos :: "XDR \<Rightarrow> u_int" where
  "xdr_getpos xdrs = of_nat (x_private xdrs - x_base xdrs)"

definition xdr_setpos :: "XDR \<Rightarrow> u_int \<Rightarrow> bool \<times> XDR" where
  "xdr_setpos xdrs pos =
     (let newaddr = x_base xdrs + unat pos;
          lastaddr = x_private xdrs + x_handy xdrs
      in if lastaddr < newaddr then (False, xdrs)
         else (True, xdrs\<lparr>x_private := newaddr, x_handy := lastaddr - newaddr\<rparr>))"

definition xdr_u_int :: "XDR \<Rightarrow> byte list \<Rightarrow> u_int \<Rightarrow> bool \<times> XDR \<times> byte list \<times> u_int" where
  "xdr_u_int xdrs mem up =
     (case x_op xdrs of
        XDR_ENCODE \<Rightarrow>
          if x_handy xdrs < 4 then (False, xdrs, mem, up)
          else (True,
                xdrs\<lparr>x_handy := x_handy xdrs - 4, x_private := x_private xdrs + 4\<rparr>,
                store_bytes mem (x_private xdrs) (be32_encode up),
                up)
      | XDR_DECODE \<Rightarrow>
          if x_handy xdrs < 4 then (False, xdrs, mem, up)
          else (True,
                xdrs\<lparr>x_handy := x_handy xdrs - 4, x_private := x_private xdrs + 4\<rparr>,
                mem,
                be32_decode (load_bytes mem (x_private xdrs) 4))
      | XDR_FREE \<Rightarrow> (True, xdrs, mem, up))"

text \<open>
  A marshaller callback (\<^verbatim>\<open>xdrproc_t\<close>) applied to its fixed value: it takes the
  stream and the memory and returns its verdict with both as it leaves them.
\<close>

type_synonym xdrproc_t = "XDR \<Rightarrow> byte list \<Rightarrow> bool \<times> XDR \<times> byte list"

text \<open>
  What every marshaller built from the stream operations guarantees: the stream
  keeps its start and its end, the position stays inside, and the memory keeps
  its size.
\<close>

definition xdrmem_filter :: "xdrproc_t \<Rightarrow> bool" where
  "xdrmem_filter filter' \<longleftrightarrow>
     (\<forall>xdrs mem. x_base xdrs \<le> x_private xdrs \<longrightarrow>
        (case filter' xdrs mem of (ok, xdrs', mem') \<Rightarrow>
           x_base xdrs' = x_base xdrs \<and>
           x_base xdrs' \<le> x_private xdrs' \<and>
           x_private xdrs' + x_handy xdrs' = x_private xdrs + x_handy xdrs \<and>
           length mem' = length mem))"


section \<open>The message record\<close>

text \<open>
  Modelled from the spec: the declarations of \<^verbatim>\<open>virnetmessage.h\<close> and of the
  protocol file are not under src/. The header has the six fields of section 3
  (program id, program version, procedure, message type, serial number, status),
  each a 32-bit XDR integer; the message has the fields that the functions of
  \<^verbatim>\<open>virnetmessage.c\<close> read and write.
\<close>

record virNetMessageHeader =
  prog :: u_int
  vers :: u_int
  proc :: u_int
  type :: u_int
  serial :: u_int
  status :: u_int

record virNetMessage =
  tracked :: bool
  buffer :: "byte list"
  bufferLength :: size_t
  bufferOffset :: size_t
  header :: virNetMessageHeader
  cb :: addr
  opaque :: addr
  nfds :: size_t
  fds :: "int list"
  donefds :: size_t
  "next" :: addr

text \<open>The record after \<^verbatim>\<open>memset(msg, 0, sizeof(*msg))\<close>.\<close>

definition zero_header :: virNetMessageHeader where
  "zero_header = \<lparr>prog = 0, vers = 0, proc = 0, type = 0, serial = 0, status = 0\<rparr>"

definition zero_message :: virNetMessage where
  "zero_message =
     \<lparr>tracked = False, buffer = [], bufferLength = 0, bufferOffset = 0,
      header = zero_header, cb = 0, opaque = 0, nfds = 0, fds = [], donefds = 0,
      next = 0\<rparr>"

text \<open>
  Modelled from the spec: the protocol constants are declared outside src/.
  \<open>LEN_SIZE = 4\<close> and \<open>FDS_MAX = 32\<close> are fixed by the spec (section 6); the initial
  payload capacity, the payload cap and the size of the stream used to rewrite
  the length word are implementation constants and are parameters here.
\<close>

definition VIR_NET_MESSAGE_LEN_MAX :: nat where
  "VIR_NET_MESSAGE_LEN_MAX = 4"

definition VIR_NET_MESSAGE_NUM_FDS_MAX :: nat where
  "VIR_NET_MESSAGE_NUM_FDS_MAX = 32"

record virNetProtocol =
  VIR_NET_MESSAGE_INITIAL :: nat
  VIR_NET_MESSAGE_MAX :: nat
  VIR_NET_MESSAGE_HEADER_XDR_LEN :: nat

text \<open>
  The constants are C \<^verbatim>\<open>int\<close> constants, the initial capacity is positive and
  below the cap.
\<close>

definition protocol_ok :: "virNetProtocol \<Rightarrow> bool" where
  "protocol_ok P \<longleftrightarrow>
     0 < VIR_NET_MESSAGE_INITIAL P \<and>
     VIR_NET_MESSAGE_INITIAL P \<le> VIR_NET_MESSAGE_MAX P \<and>
     VIR_NET_MESSAGE_MAX P < 2 ^ 31"

text \<open>
  Modelled from the spec: the error codes of the public error header. An error
  report is the code, the format string and the format arguments given to
  \<^verbatim>\<open>virReportError\<close>. The spec's \<open>ProtocolError\<close>, \<open>PayloadTooLarge\<close> and
  \<open>TooManyFDs\<close> are all reports with the code \<^verbatim>\<open>VIR_ERR_RPC\<close>, told apart by
  their text.
\<close>

definition VIR_ERR_OK :: int where "VIR_ERR_OK = 0"
definition VIR_ERR_INTERNAL_ERROR :: int where "VIR_ERR_INTERNAL_ERROR = 1"
definition VIR_ERR_RPC :: int where "VIR_ERR_RPC = 39"
definition VIR_FROM_RPC :: int where "VIR_FROM_RPC = 7"
definition VIR_ERR_ERROR :: int where "VIR_ERR_ERROR = 2"

type_synonym report = "int \<times> string \<times> nat list"


section \<open>Lifecycle\<close>

text \<open>
  What the lifecycle functions do to the world is a list of events, in order.
  Modelled from the spec: \<^verbatim>\<open>VIR_FORCE_CLOSE\<close> closes a descriptor; the sentinel
  \<open>-1\<close> (any negative value) stands for no descriptor and nothing is closed.
\<close>

datatype event =
    is_Invoke: Invoke addr virNetMessage addr
  | Close int
  | Free_fds
  | Free_buffer
  | Free_msg

definition VIR_FORCE_CLOSE :: "int \<Rightarrow> event list" where
  "VIR_FORCE_CLOSE fd = (if fd < 0 then [] else [Close fd])"

definition virNetMessageNew :: "bool \<Rightarrow> virNetMessage" where
  "virNetMessageNew tracked' = zero_message\<lparr>tracked := tracked'\<rparr>"

definition virNetMessageClearFDs :: "virNetMessage \<Rightarrow> event list \<times> virNetMessage" where
  "virNetMessageClearFDs msg =
     (concat (map VIR_FORCE_CLOSE (take (nfds msg) (fds msg))) @ [Free_fds],
      msg\<lparr>donefds := 0, nfds := 0, fds := []\<rparr>)"

definition virNetMessageClearPayload :: "virNetMessage \<Rightarrow> event list \<times> virNetMessage" where
  "virNetMessageClearPayload msg0 =
     (let (ev, msg) = virNetMessageClearFDs msg0
      in (ev @ [Free_buffer], msg\<lparr>bufferOffset := 0, bufferLength := 0, buffer := []\<rparr>))"

definition virNetMessageClear :: "virNetMessage \<Rightarrow> event list \<times> virNetMessage" where
  "virNetMessageClear msg0 =
     (let tracked' = tracked msg0;
          (ev, msg) = virNetMessageClearPayload msg0;
          msg = zero_message
      in (ev, msg\<lparr>tracked := tracked'\<rparr>))"

text \<open>
  The destructor callback is foreign code that is handed the message: \<open>call f m c\<close>
  is the message as the callback at address \<open>f\<close> leaves it.
\<close>

definition virNetMessageFree ::
  "(addr \<Rightarrow> virNetMessage \<Rightarrow> addr \<Rightarrow> virNetMessage) \<Rightarrow> virNetMessage option \<Rightarrow> event list" where
  "virNetMessageFree call msg' =
     (case msg' of
        None \<Rightarrow> []
      | Some msg0 \<Rightarrow>
          let (ev1, msg) =
                (if cb msg0 \<noteq> 0
                 then ([Invoke (cb msg0) msg0 (opaque msg0)], call (cb msg0) msg0 (opaque msg0))
                 else ([], msg0));
              (ev2, msg) = virNetMessageClearPayload msg
          in ev1 @ ev2 @ [Free_msg])"


section \<open>The transmit queue\<close>

text \<open>
  The queue is an intrusive list: the heap maps the address of a message to the
  message, and the queue is the address of its head. The walk to the last
  element does not return on a cyclic list.
\<close>

type_synonym heap = "addr \<Rightarrow> virNetMessage"

partial_function (option) queue_last :: "heap \<Rightarrow> addr \<Rightarrow> addr option" where
  "queue_last h tmp = (if next (h tmp) \<noteq> 0 then queue_last h (next (h tmp)) else Some tmp)"

definition virNetMessageQueuePush :: "heap \<Rightarrow> addr \<Rightarrow> addr \<Rightarrow> (heap \<times> addr) option" where
  "virNetMessageQueuePush h queue msg =
     (let tmp = queue
      in if tmp \<noteq> 0
         then (case queue_last h tmp of
                 None \<Rightarrow> None
               | Some tmp \<Rightarrow> Some (h(tmp := (h tmp)\<lparr>next := msg\<rparr>), queue))
         else Some (h, msg))"

definition virNetMessageQueueServe :: "heap \<Rightarrow> addr \<Rightarrow> heap \<times> addr \<times> addr" where
  "virNetMessageQueueServe h queue =
     (let tmp = queue
      in if tmp \<noteq> 0
         then (h(tmp := (h tmp)\<lparr>next := 0\<rparr>), next (h tmp), tmp)
         else (h, queue, tmp))"

text \<open>Pushing a sequence of messages in order, and serving \<open>n\<close> times: each serve
  is recorded with the message returned and its \<open>next\<close> link at that moment.\<close>

fun push_all :: "heap \<Rightarrow> addr \<Rightarrow> addr list \<Rightarrow> (heap \<times> addr) option" where
  "push_all h queue [] = Some (h, queue)"
| "push_all h queue (m # ms) =
     (case virNetMessageQueuePush h queue m of
        None \<Rightarrow> None
      | Some (h', queue') \<Rightarrow> push_all h' queue' ms)"

fun serve_n :: "heap \<Rightarrow> addr \<Rightarrow> nat \<Rightarrow> (heap \<times> addr) \<times> (addr \<times> addr) list" where
  "serve_n h queue 0 = ((h, queue), [])"
| "serve_n h queue (Suc n) =
     (case virNetMessageQueueServe h queue of
        (h', queue', tmp) \<Rightarrow>
          (case serve_n h' queue' n of
             (s, rs) \<Rightarrow> (s, (tmp, next (h' tmp)) # rs)))"


text \<open>
  The abstraction of the queue used in the proofs: \<open>queue_of h p as\<close> says that
  the links from \<open>p\<close> pass through the messages \<open>as\<close>, in order, and end with the
  null link.
\<close>

fun queue_of :: "heap \<Rightarrow> addr \<Rightarrow> addr list \<Rightarrow> bool" where
  "queue_of h p [] \<longleftrightarrow> p = 0"
| "queue_of h p (a # as) \<longleftrightarrow> p = a \<and> a \<noteq> 0 \<and> queue_of h (next (h a)) as"


section \<open>The frame codec\<close>

text \<open>
  Modelled from the spec: the generated header marshaller is not under src/. It
  passes the six fields of the header through the stream in order, and stops at
  the first one that fails.
\<close>

definition xdr_virNetMessageHeader ::
  "XDR \<Rightarrow> byte list \<Rightarrow> virNetMessageHeader \<Rightarrow> bool \<times> XDR \<times> byte list \<times> virNetMessageHeader" where
  "xdr_virNetMessageHeader xdrs0 mem0 objp0 =
     (let (ok, xdrs, mem, v) = xdr_u_int xdrs0 mem0 (prog objp0); objp = objp0\<lparr>prog := v\<rparr> in
      if \<not> ok then (False, xdrs, mem, objp) else
      let (ok, xdrs, mem, v) = xdr_u_int xdrs mem (vers objp); objp = objp\<lparr>vers := v\<rparr> in
      if \<not> ok then (False, xdrs, mem, objp) else
      let (ok, xdrs, mem, v) = xdr_u_int xdrs mem (proc objp); objp = objp\<lparr>proc := v\<rparr> in
      if \<not> ok then (False, xdrs, mem, objp) else
      let (ok, xdrs, mem, v) = xdr_u_int xdrs mem (type objp); objp = objp\<lparr>type := v\<rparr> in
      if \<not> ok then (False, xdrs, mem, objp) else
      let (ok, xdrs, mem, v) = xdr_u_int xdrs mem (serial objp); objp = objp\<lparr>serial := v\<rparr> in
      if \<not> ok then (False, xdrs, mem, objp) else
      let (ok, xdrs, mem, v) = xdr_u_int xdrs mem (status objp); objp = objp\<lparr>status := v\<rparr> in
      if \<not> ok then (False, xdrs, mem, objp) else
      (True, xdrs, mem, objp))"

text \<open>
  A codec function returns the error it reported (\<open>None\<close> when it returns 0, the
  report when it returns -1) and the message as it leaves it. The local \<open>len\<close> of
  the length decoder is not initialised in the source; it is read only after a
  successful decode has set it.
\<close>

definition virNetMessageDecodeLength ::
  "virNetProtocol \<Rightarrow> virNetMessage \<Rightarrow> report option \<times> virNetMessage" where
  "virNetMessageDecodeLength P msg0 =
     (let xdr = xdrmem_create 0 (of_nat (bufferLength msg0)) XDR_DECODE;
          (ok, xdr, mem, len) = xdr_u_int xdr (buffer msg0) 0
      in if \<not> ok
         then (Some (VIR_ERR_RPC, ''Unable to decode message length'', []), msg0)
         else
           let msg = msg0\<lparr>bufferOffset := unat (xdr_getpos xdr)\<rparr>
           in if unat len < VIR_NET_MESSAGE_LEN_MAX
              then (Some (VIR_ERR_RPC,
                          ''packet %d bytes received from server too small, want %d'',
                          [unat len, VIR_NET_MESSAGE_LEN_MAX]), msg)
              else
                let len = len - of_nat VIR_NET_MESSAGE_LEN_MAX
                in if VIR_NET_MESSAGE_MAX P < unat len
                   then (Some (VIR_ERR_RPC,
                               ''packet %d bytes received from server too large, want %d'',
                               [unat len, VIR_NET_MESSAGE_MAX P]), msg)
                   else
                     let msg = msg\<lparr>bufferLength := bufferLength msg + unat len\<rparr>;
                         msg = msg\<lparr>buffer := VIR_REALLOC_N (buffer msg) (bufferLength msg)\<rparr>
                     in (None, msg))"

definition virNetMessageEncodeHeader ::
  "virNetProtocol \<Rightarrow> virNetMessage \<Rightarrow> report option \<times> virNetMessage" where
  "virNetMessageEncodeHeader P msg0 =
     (let msg = msg0\<lparr>bufferLength := VIR_NET_MESSAGE_INITIAL P + VIR_NET_MESSAGE_LEN_MAX\<rparr>;
          msg = msg\<lparr>buffer := VIR_REALLOC_N (buffer msg) (bufferLength msg)\<rparr>;
          msg = msg\<lparr>bufferOffset := 0\<rparr>;
          xdr = xdrmem_create 0 (of_nat (bufferLength msg)) XDR_ENCODE;
          (ok, xdr, mem, len) = xdr_u_int xdr (buffer msg) 0;
          msg = msg\<lparr>buffer := mem\<rparr>
      in if \<not> ok
         then (Some (VIR_ERR_RPC, ''Unable to encode message length'', []), msg)
         else
           let (ok, xdr, mem, hdr) = xdr_virNetMessageHeader xdr (buffer msg) (header msg);
               msg = msg\<lparr>buffer := mem, header := hdr\<rparr>
           in if \<not> ok
              then (Some (VIR_ERR_RPC, ''Unable to encode message header'', []), msg)
              else
                let len = xdr_getpos xdr;
                    (_, xdr) = xdr_setpos xdr 0;
                    (ok, xdr, mem, len) = xdr_u_int xdr (buffer msg) len;
                    msg = msg\<lparr>buffer := mem\<rparr>
                in if \<not> ok
                   then (Some (VIR_ERR_RPC, ''Unable to re-encode message length'', []), msg)
                   else (None, msg\<lparr>bufferOffset := bufferOffset msg + unat len\<rparr>))"

definition virNetMessageEncodeNumFDs :: "virNetMessage \<Rightarrow> report option \<times> virNetMessage" where
  "virNetMessageEncodeNumFDs msg0 =
     (let numFDs = (of_nat (nfds msg0) :: u_int);
          xdr = xdrmem_create (bufferOffset msg0)
                  (of_nat (bufferLength msg0) - of_nat (bufferOffset msg0)) XDR_ENCODE
      in if VIR_NET_MESSAGE_NUM_FDS_MAX < unat numFDs
         then (Some (VIR_ERR_RPC, ''Too many FDs to send %d, expected %d maximum'',
                     [unat numFDs, VIR_NET_MESSAGE_NUM_FDS_MAX]), msg0)
         else
           let (ok, xdr, mem, numFDs) = xdr_u_int xdr (buffer msg0) numFDs;
               msg = msg0\<lparr>buffer := mem\<rparr>
           in if \<not> ok
              then (Some (VIR_ERR_RPC, ''Unable to encode number of FDs'', []), msg)
              else (None, msg\<lparr>bufferOffset := bufferOffset msg + unat (xdr_getpos xdr)\<rparr>))"

definition virNetMessageDecodeNumFDs :: "virNetMessage \<Rightarrow> report option \<times> virNetMessage" where
  "virNetMessageDecodeNumFDs msg0 =
     (let xdr = xdrmem_create (bufferOffset msg0)
                  (of_nat (bufferLength msg0) - of_nat (bufferOffset msg0)) XDR_DECODE;
          (ok, xdr, mem, numFDs) = xdr_u_int xdr (buffer msg0) 0
      in if \<not> ok
         then (Some (VIR_ERR_RPC, ''Unable to decode number of FDs'', []), msg0)
         else
           let msg = msg0\<lparr>bufferOffset := bufferOffset msg0 + unat (xdr_getpos xdr)\<rparr>
           in if VIR_NET_MESSAGE_NUM_FDS_MAX < unat numFDs
              then (Some (VIR_ERR_RPC, ''Received too many FDs %d, expected %d maximum'',
                          [unat numFDs, VIR_NET_MESSAGE_NUM_FDS_MAX]), msg)
              else
                let msg = (if nfds msg = 0
                           then msg\<lparr>nfds := unat numFDs, fds := replicate (unat numFDs) (- 1)\<rparr>
                           else msg)
                in (None, msg))"


section \<open>The payload codec\<close>

text \<open>
  The loop of the typed encoder: it returns whether the marshaller succeeded in
  the end, with the message and the stream. It does not return when the
  marshaller fails for ever and doubling does not raise the capacity.
\<close>

partial_function (option) encode_retry ::
  "virNetProtocol \<Rightarrow> xdrproc_t \<Rightarrow> virNetMessage \<Rightarrow> XDR \<Rightarrow> (bool \<times> virNetMessage \<times> XDR) option" where
  "encode_retry P filter' msg0 xdr0 =
     (let r = filter' xdr0 (buffer msg0);
          msg = msg0\<lparr>buffer := snd (snd r)\<rparr>
      in if fst r then Some (True, msg, fst (snd r))
         else
           let newlen = (of_nat (bufferLength msg) - of_nat VIR_NET_MESSAGE_LEN_MAX :: u_int);
               newlen = newlen * 2
           in if VIR_NET_MESSAGE_MAX P < unat newlen
              then Some (False, msg, fst (snd r))
              else
                let msg = msg\<lparr>bufferLength := unat newlen + VIR_NET_MESSAGE_LEN_MAX\<rparr>;
                    msg = msg\<lparr>buffer := VIR_REALLOC_N (buffer msg) (bufferLength msg)\<rparr>;
                    xdr = xdrmem_create (bufferOffset msg)
                            (of_nat (bufferLength msg) - of_nat (bufferOffset msg)) XDR_ENCODE
                in encode_retry P filter' msg xdr)"

text \<open>
  The finalisation that both payload encoders end with (the source has the same
  lines twice): the length word is written again through a fresh stream over the
  start of the buffer, and the cursors are set for transmission.
\<close>

definition encode_length :: "virNetProtocol \<Rightarrow> virNetMessage \<Rightarrow> report option \<times> virNetMessage" where
  "encode_length P msg0 =
     (let xdr = xdrmem_create 0 (of_nat (VIR_NET_MESSAGE_HEADER_XDR_LEN P)) XDR_ENCODE;
          msglen = (of_nat (bufferOffset msg0) :: u_int);
          (ok, xdr, mem, msglen) = xdr_u_int xdr (buffer msg0) msglen;
          msg = msg0\<lparr>buffer := mem\<rparr>
      in if \<not> ok
         then (Some (VIR_ERR_RPC, ''Unable to encode message length'', []), msg)
         else (None, msg\<lparr>bufferLength := bufferOffset msg, bufferOffset := 0\<rparr>))"

definition virNetMessageEncodePayload ::
  "virNetProtocol \<Rightarrow> virNetMessage \<Rightarrow> xdrproc_t \<Rightarrow> (report option \<times> virNetMessage) option" where
  "virNetMessageEncodePayload P msg0 filter' =
     (let xdr = xdrmem_create (bufferOffset msg0)
                  (of_nat (bufferLength msg0) - of_nat (bufferOffset msg0)) XDR_ENCODE
      in case encode_retry P filter' msg0 xdr of
           None \<Rightarrow> None
         | Some (ok, msg, xdr) \<Rightarrow>
             if \<not> ok
             then Some (Some (VIR_ERR_RPC, ''Unable to encode message payload'', []), msg)
             else Some (encode_length P
                          (msg\<lparr>bufferOffset := bufferOffset msg + unat (xdr_getpos xdr)\<rparr>)))"

text \<open>
  The raw encoder takes the bytes \<open>data[0..len)\<close>: \<open>None\<close> is the \<^verbatim>\<open>NULL\<close> pointer,
  and \<open>len\<close> is the length of the list.
\<close>

definition virNetMessageEncodePayloadRaw ::
  "virNetProtocol \<Rightarrow> virNetMessage \<Rightarrow> byte list option \<Rightarrow> report option \<times> virNetMessage" where
  "virNetMessageEncodePayloadRaw P msg0 data =
     (case data of
        None \<Rightarrow> encode_length P msg0
      | Some d \<Rightarrow>
          let len = length d
          in if 0 < len
             then
               let grown =
                     (if size_t_sub (bufferLength msg0) (bufferOffset msg0) < len
                      then
                        if VIR_NET_MESSAGE_MAX P + VIR_NET_MESSAGE_LEN_MAX < bufferOffset msg0 + len
                        then Inl (VIR_ERR_RPC,
                                  ''Stream data too long to send (%zu bytes needed, %zu bytes available)'',
                                  [len, size_t_sub (VIR_NET_MESSAGE_MAX P + VIR_NET_MESSAGE_LEN_MAX)
                                          (bufferOffset msg0)])
                        else
                          let msg = msg0\<lparr>bufferLength := bufferOffset msg0 + len\<rparr>
                          in Inr (msg\<lparr>buffer := VIR_REALLOC_N (buffer msg) (bufferLength msg)\<rparr>)
                      else Inr msg0)
               in case grown of
                    Inl e \<Rightarrow> (Some e, msg0)
                  | Inr msg \<Rightarrow>
                      let msg = msg\<lparr>buffer := store_bytes (buffer msg) (bufferOffset msg) d\<rparr>;
                          msg = msg\<lparr>bufferOffset := bufferOffset msg + len\<rparr>
                      in encode_length P msg
             else encode_length P msg0)"


text \<open>
  The state of a message that is being encoded, between the header encoder and
  the finalisation of the payload: the cursor is inside the declared length,
  the buffer holds at least the declared length, and the declared length is
  more than the length word and at most the cap plus the length word.
\<close>

definition encoding :: "virNetProtocol \<Rightarrow> virNetMessage \<Rightarrow> bool" where
  "encoding P m \<longleftrightarrow>
     bufferOffset m \<le> bufferLength m \<and> bufferLength m \<le> length (buffer m) \<and>
     VIR_NET_MESSAGE_LEN_MAX < bufferLength m \<and>
     bufferLength m \<le> VIR_NET_MESSAGE_MAX P + VIR_NET_MESSAGE_LEN_MAX"


section \<open>Error capture\<close>

text \<open>
  Modelled from the spec: the two error records are declared outside src/. The
  thread-local error has the fields that are copied; the wire record has them
  and the two optional object references \<open>dom\<close> and \<open>net\<close>. A string pointer that
  may be \<^verbatim>\<open>NULL\<close> is an optional string. The argument \<open>verr\<close> is what
  \<^verbatim>\<open>virGetLastError\<close> returns, \<open>None\<close> when no error is set.
\<close>

record virError =
  code :: int
  domain :: int
  message :: "string option"
  level :: int
  str1 :: "string option"
  str2 :: "string option"
  str3 :: "string option"
  int1 :: int
  int2 :: int

record virNetMessageError =
  code :: int
  domain :: int
  message :: "string option"
  level :: int
  dom :: addr
  str1 :: "string option"
  str2 :: "string option"
  str3 :: "string option"
  int1 :: int
  int2 :: int
  net :: addr

definition zero_error :: virNetMessageError where
  "zero_error =
     \<lparr>code = 0, domain = 0, message = None, level = 0, dom = 0,
      str1 = None, str2 = None, str3 = None, int1 = 0, int2 = 0, net = 0\<rparr>"

definition virNetMessageSaveError :: "virError option \<Rightarrow> virNetMessageError \<Rightarrow> virNetMessageError" where
  "virNetMessageSaveError verr' rerr0 =
     (if virNetMessageError.code rerr0 \<noteq> VIR_ERR_OK then rerr0
      else
        let rerr = zero_error
        in case verr' of
             Some verr \<Rightarrow>
               let rerr = rerr\<lparr>virNetMessageError.code := virError.code verr\<rparr>;
                   rerr = rerr\<lparr>virNetMessageError.domain := virError.domain verr\<rparr>;
                   rerr = (case virError.message verr of
                             Some s \<Rightarrow> rerr\<lparr>virNetMessageError.message := Some s\<rparr>
                           | None \<Rightarrow> rerr);
                   rerr = rerr\<lparr>virNetMessageError.level := virError.level verr\<rparr>;
                   rerr = (case virError.str1 verr of
                             Some s \<Rightarrow> rerr\<lparr>virNetMessageError.str1 := Some s\<rparr>
                           | None \<Rightarrow> rerr);
                   rerr = (case virError.str2 verr of
                             Some s \<Rightarrow> rerr\<lparr>virNetMessageError.str2 := Some s\<rparr>
                           | None \<Rightarrow> rerr);
                   rerr = (case virError.str3 verr of
                             Some s \<Rightarrow> rerr\<lparr>virNetMessageError.str3 := Some s\<rparr>
                           | None \<Rightarrow> rerr);
                   rerr = rerr\<lparr>virNetMessageError.int1 := virError.int1 verr\<rparr>;
                   rerr = rerr\<lparr>virNetMessageError.int2 := virError.int2 verr\<rparr>
               in rerr
           | None \<Rightarrow>
               rerr\<lparr>virNetMessageError.code := VIR_ERR_INTERNAL_ERROR,
                    virNetMessageError.domain := VIR_FROM_RPC,
                    virNetMessageError.message :=
                      Some ''Library function returned error but did not set virError'',
                    virNetMessageError.level := VIR_ERR_ERROR\<rparr>)"


section \<open>Example values\<close>

text \<open>
  A set of protocol constants: the payload cap of 256 MiB that the spec names,
  the marshalled size of the six-field header, and an initial capacity of 64 KiB.
\<close>

definition example_protocol :: virNetProtocol where
  "example_protocol =
     \<lparr>VIR_NET_MESSAGE_INITIAL = 65536, VIR_NET_MESSAGE_MAX = 268435456,
      VIR_NET_MESSAGE_HEADER_XDR_LEN = 24\<rparr>"

text \<open>
  A record whose descriptor count is \<open>2 ^ 32\<close>, and a message that holds 33
  descriptors of its own.
\<close>

definition big_fds_message :: virNetMessage where
  "big_fds_message =
     zero_message\<lparr>buffer := [0, 0, 0, 0, 0, 0, 0, 0], bufferLength := 8, bufferOffset := 4,
                  nfds := 4294967296, fds := replicate 4294967296 (- 1)\<rparr>"


text \<open>A heap of fresh messages, told apart by a tag in an unused field.\<close>

definition three_messages :: heap where
  "three_messages = (\<lambda>a. zero_message\<lparr>donefds := a\<rparr>)"

text \<open>
  The message that the header encoder makes of the zero message, a marshaller
  that always fails, a marshaller that encodes one integer, and a protocol
  whose cap is less than twice its initial capacity.
\<close>

definition header_encoded_message :: virNetMessage where
  "header_encoded_message = snd (virNetMessageEncodeHeader example_protocol zero_message)"

definition failing_filter :: xdrproc_t where
  "failing_filter xdrs mem = (False, xdrs, mem)"

definition count_filter :: xdrproc_t where
  "count_filter xdrs mem = (case xdr_u_int xdrs mem 7 of (ok, xdrs', mem', v) \<Rightarrow> (ok, xdrs', mem'))"

definition small_protocol :: virNetProtocol where
  "small_protocol =
     \<lparr>VIR_NET_MESSAGE_INITIAL = 32, VIR_NET_MESSAGE_MAX = 48,
      VIR_NET_MESSAGE_HEADER_XDR_LEN = 24\<rparr>"

text \<open>Two thread-local errors.\<close>

definition first_error :: virError where
  "first_error =
     \<lparr>virError.code = 1, virError.domain = 7, virError.message = Some ''first'',
      virError.level = 2, virError.str1 = Some ''a'', virError.str2 = None,
      virError.str3 = None, virError.int1 = 5, virError.int2 = 6\<rparr>"

definition second_error :: virError where
  "second_error =
     \<lparr>virError.code = 39, virError.domain = 7, virError.message = Some ''second'',
      virError.level = 2, virError.str1 = None, virError.str2 = None,
      virError.str3 = None, virError.int1 = 0, virError.int2 = 0\<rparr>"


section \<open>Memory and word lemmas\<close>

lemma be32_decode_encode: "be32_decode (be32_encode w) = w"
proof -
  have "((push_bit 24 (ucast (ucast (drop_bit 24 w) :: byte)) OR
          push_bit 16 (ucast (ucast (drop_bit 16 w) :: byte))) OR
          push_bit 8 (ucast (ucast (drop_bit 8 w) :: byte))) OR
          ucast (ucast w :: byte) = w"
  proof (rule bit_word_eqI)
    fix n :: nat
    assume "n < LENGTH(32)"
    then have n: "n < 32" by simp
    consider "n < 8" | "8 \<le> n" "n < 16" | "16 \<le> n" "n < 24" | "24 \<le> n"
      by linarith
    then show "bit (((push_bit 24 (ucast (ucast (drop_bit 24 w) :: byte)) OR
          push_bit 16 (ucast (ucast (drop_bit 16 w) :: byte))) OR
          push_bit 8 (ucast (ucast (drop_bit 8 w) :: byte))) OR
          ucast (ucast w :: byte) :: u_int) n = bit w n"
      using n by cases (auto simp add: bit_simps)
  qed
  then show ?thesis
    by (simp add: be32_decode_def be32_encode_def)
qed

lemma length_be32_encode: "length (be32_encode w) = 4"
  by (simp add: be32_encode_def)

lemma length_store_bytes: "length (store_bytes mem a bs) = length mem"
  by (induction bs arbitrary: mem a) auto

lemma store_bytes_nth_below: "i < a \<Longrightarrow> store_bytes mem a bs ! i = mem ! i"
  by (induction bs arbitrary: mem a) auto

lemma load_store_bytes:
  "a + length bs \<le> length mem \<Longrightarrow> load_bytes (store_bytes mem a bs) a (length bs) = bs"
proof (induction bs arbitrary: mem a)
  case Nil
  then show ?case by (simp add: load_bytes_def)
next
  case (Cons b bs)
  let ?mem = "store_bytes (mem[a := b]) (Suc a) bs"
  have "load_bytes ?mem a (Suc (length bs)) = ?mem ! a # load_bytes ?mem (Suc a) (length bs)"
    using Cons.prems
    by (simp add: load_bytes_def length_store_bytes Cons_nth_drop_Suc [symmetric])
  also have "?mem ! a = b"
    using Cons.prems by (simp add: store_bytes_nth_below)
  also have "load_bytes ?mem (Suc a) (length bs) = bs"
    using Cons.prems by (intro Cons.IH) simp
  finally show ?case by simp
qed

lemma unat_of_nat32: "n < 2 ^ 32 \<Longrightarrow> unat (of_nat n :: u_int) = n"
  by (simp add: unat_of_nat)

lemma unat_size_diff:
  assumes "b \<le> a" and "a - b < 2 ^ 32"
  shows "unat (of_nat a - of_nat b :: u_int) = a - b"
proof -
  have "(of_nat a - of_nat b :: u_int) = of_nat (a - b)"
    using assms(1) by (rule of_nat_diff [symmetric])
  moreover have "unat (of_nat (a - b) :: u_int) = a - b"
    using assms(2) by (rule unat_of_nat32)
  ultimately show ?thesis by simp
qed

lemma no_invoke_force_close: "filter is_Invoke (concat (map VIR_FORCE_CLOSE xs)) = []"
  by (induction xs) (simp_all add: VIR_FORCE_CLOSE_def)


section \<open>The length decoder\<close>

text \<open>
  C1. On a message whose buffer holds exactly the four bytes of the length word
  and whose \<open>bufferLength\<close> is 4, the length decoder reads the big-endian value
  \<open>L\<close>. It reports an RPC error (the spec's \<open>ProtocolError\<close>) when \<open>L < 4\<close> and when
  \<open>L - 4\<close> exceeds the payload cap, and the cursor is past the length word also
  then. Otherwise it succeeds: \<open>bufferLength\<close> is \<open>L\<close>, the buffer has \<open>L\<close> bytes
  and keeps its first four, and \<open>bufferOffset\<close> is 4.
\<close>

theorem decode_length_frame:
  assumes "length (buffer m) = 4" and "bufferLength m = 4"
  shows "virNetMessageDecodeLength P m =
    (let L = unat (be32_decode (buffer m)) in
     if L < 4
     then (Some (VIR_ERR_RPC, ''packet %d bytes received from server too small, want %d'', [L, 4]),
           m\<lparr>bufferOffset := 4\<rparr>)
     else if VIR_NET_MESSAGE_MAX P < L - 4
     then (Some (VIR_ERR_RPC, ''packet %d bytes received from server too large, want %d'',
                 [L - 4, VIR_NET_MESSAGE_MAX P]),
           m\<lparr>bufferOffset := 4\<rparr>)
     else (None, m\<lparr>bufferOffset := 4, bufferLength := L,
                    buffer := buffer m @ replicate (L - 4) 0\<rparr>))"
  using assms
  by (simp add: virNetMessageDecodeLength_def xdrmem_create_def xdr_u_int_def xdr_getpos_def
     Let_def VIR_NET_MESSAGE_LEN_MAX_def load_bytes_def VIR_REALLOC_N_def unat_sub word_le_nat_alt)

theorem decode_length_frame_witness:
  "virNetMessageDecodeLength example_protocol
       (zero_message\<lparr>buffer := [0, 0, 0, 12], bufferLength := 4\<rparr>)
     = (None, zero_message\<lparr>buffer := [0, 0, 0, 12] @ replicate 8 0, bufferLength := 12,
                           bufferOffset := 4\<rparr>)
   \<and> fst (virNetMessageDecodeLength example_protocol
            (zero_message\<lparr>buffer := [0, 0, 0, 3], bufferLength := 4\<rparr>))
     = Some (VIR_ERR_RPC, ''packet %d bytes received from server too small, want %d'', [3, 4])
   \<and> fst (virNetMessageDecodeLength example_protocol
            (zero_message\<lparr>buffer := [255, 255, 255, 255], bufferLength := 4\<rparr>))
     = Some (VIR_ERR_RPC, ''packet %d bytes received from server too large, want %d'',
             [4294967291, 268435456])"
  using decode_length_frame [of "zero_message\<lparr>buffer := [0, 0, 0, 12], bufferLength := 4\<rparr>"
          example_protocol]
        decode_length_frame [of "zero_message\<lparr>buffer := [0, 0, 0, 3], bufferLength := 4\<rparr>"
          example_protocol]
        decode_length_frame [of "zero_message\<lparr>buffer := [255, 255, 255, 255], bufferLength := 4\<rparr>"
          example_protocol]
  by (simp add: example_protocol_def zero_message_def be32_decode_def)


section \<open>Clear and free\<close>

text \<open>
  C6. After \<open>Clear\<close> the \<open>tracked\<close> flag has the value it had before the call and
  every other field of the record is zero: no buffer, both cursors 0, a zero
  header, no descriptors and both descriptor counts 0, no callback, no cookie,
  no \<open>next\<close> link. The destructor callback is not invoked.
\<close>

theorem clear_keeps_tracked:
  "snd (virNetMessageClear m) =
     \<lparr>tracked = tracked m, buffer = [], bufferLength = 0, bufferOffset = 0,
      header = \<lparr>prog = 0, vers = 0, proc = 0, type = 0, serial = 0, status = 0\<rparr>,
      cb = 0, opaque = 0, nfds = 0, fds = [], donefds = 0, next = 0\<rparr>
   \<and> filter is_Invoke (fst (virNetMessageClear m)) = []"
  by (simp add: virNetMessageClear_def virNetMessageClearPayload_def virNetMessageClearFDs_def
      zero_message_def zero_header_def no_invoke_force_close)

theorem clear_keeps_tracked_witness:
  "tracked (snd (virNetMessageClear
      (zero_message\<lparr>tracked := True, cb := 7, opaque := 9, nfds := 1, fds := [3], next := 5,
                     buffer := [0, 0, 0, 4], bufferLength := 4, bufferOffset := 4\<rparr>)))
   \<and> cb (snd (virNetMessageClear
      (zero_message\<lparr>tracked := True, cb := 7, opaque := 9, nfds := 1, fds := [3], next := 5,
                     buffer := [0, 0, 0, 4], bufferLength := 4, bufferOffset := 4\<rparr>))) = 0"
  using clear_keeps_tracked [of "zero_message\<lparr>tracked := True, cb := 7, opaque := 9, nfds := 1,
          fds := [3], next := 5, buffer := [0, 0, 0, 4], bufferLength := 4, bufferOffset := 4\<rparr>"]
  by (simp add: zero_message_def)

text \<open>
  C7. \<open>Free\<close> on the null message does nothing. On a message with a destructor
  callback it invokes the callback with the message and its cookie as the first
  thing it does: the descriptors that the message holds after the callback are
  closed afterwards, then the descriptor array, the buffer and the record are
  released. The callback is invoked exactly once. Without a callback none is
  invoked.
\<close>

theorem free_invokes_destructor_once:
  "virNetMessageFree call None = []
   \<and> (cb m \<noteq> 0 \<longrightarrow>
        virNetMessageFree call (Some m) =
          Invoke (cb m) m (opaque m) #
          concat (map VIR_FORCE_CLOSE
                    (take (nfds (call (cb m) m (opaque m))) (fds (call (cb m) m (opaque m)))))
          @ [Free_fds, Free_buffer, Free_msg]
        \<and> length (filter is_Invoke (virNetMessageFree call (Some m))) = 1)
   \<and> (cb m = 0 \<longrightarrow> filter is_Invoke (virNetMessageFree call (Some m)) = [])"
  by (simp add: virNetMessageFree_def virNetMessageClearPayload_def virNetMessageClearFDs_def
      no_invoke_force_close)

theorem free_invokes_destructor_once_witness:
  "virNetMessageFree (\<lambda>f m c. m)
      (Some (zero_message\<lparr>cb := 7, opaque := 9, nfds := 2, fds := [3, - 1],
                           buffer := [0, 0, 0, 4], bufferLength := 4\<rparr>))
   = [Invoke 7 (zero_message\<lparr>cb := 7, opaque := 9, nfds := 2, fds := [3, - 1],
                              buffer := [0, 0, 0, 4], bufferLength := 4\<rparr>) 9,
      Close 3, Free_fds, Free_buffer, Free_msg]"
  using free_invokes_destructor_once [of "\<lambda>f m c. m"
          "zero_message\<lparr>cb := 7, opaque := 9, nfds := 2, fds := [3, - 1],
                         buffer := [0, 0, 0, 4], bufferLength := 4\<rparr>"]
  by (simp add: zero_message_def VIR_FORCE_CLOSE_def)


section \<open>Error capture: the first error wins\<close>

text \<open>
  C8. \<open>SaveError\<close> on a record that holds a code other than OK leaves the record
  as it is. On a record with the OK code and no thread-local error it stores
  the internal error of the RPC domain with the fixed message, at error level,
  and zero elsewhere. Otherwise it stores the code, domain, level, message, the
  three strings and the two integers of the thread-local error, and zero in the
  two object references.
\<close>

theorem save_error_first_wins:
  "virNetMessageSaveError verr rerr =
     (if virNetMessageError.code rerr \<noteq> VIR_ERR_OK then rerr
      else case verr of
        None \<Rightarrow>
          \<lparr>code = VIR_ERR_INTERNAL_ERROR, domain = VIR_FROM_RPC,
           message = Some ''Library function returned error but did not set virError'',
           level = VIR_ERR_ERROR, dom = 0, str1 = None, str2 = None, str3 = None,
           int1 = 0, int2 = 0, net = 0\<rparr>
      | Some e \<Rightarrow>
          \<lparr>code = virError.code e, domain = virError.domain e, message = virError.message e,
           level = virError.level e, dom = 0, str1 = virError.str1 e, str2 = virError.str2 e,
           str3 = virError.str3 e, int1 = virError.int1 e, int2 = virError.int2 e, net = 0\<rparr>)"
  by (simp add: virNetMessageSaveError_def zero_error_def Let_def split: option.splits)

theorem save_error_first_wins_witness:
  "virNetMessageSaveError (Some second_error)
      (virNetMessageSaveError (Some first_error) zero_error)
   = \<lparr>code = 1, domain = 7, message = Some ''first'', level = 2, dom = 0, str1 = Some ''a'',
      str2 = None, str3 = None, int1 = 5, int2 = 6, net = 0\<rparr>
   \<and> virNetMessageError.code (virNetMessageSaveError None zero_error) = VIR_ERR_INTERNAL_ERROR"
  using save_error_first_wins [of "Some second_error"
          "virNetMessageSaveError (Some first_error) zero_error"]
        save_error_first_wins [of "Some first_error" zero_error]
        save_error_first_wins [of None zero_error]
  by (simp add: zero_error_def VIR_ERR_OK_def first_error_def second_error_def)


section \<open>The descriptor count decoder\<close>

text \<open>
  C10. When the count decoder fails because the count it read exceeds 32, the
  message it leaves differs from the one it was given in \<open>bufferOffset\<close> only,
  which has advanced by 4, past the count word: the cursor moves before the
  count is checked.
\<close>

theorem decode_num_fds_cursor_on_error:
  assumes "virNetMessageDecodeNumFDs m =
             (Some (VIR_ERR_RPC, ''Received too many FDs %d, expected %d maximum'', args), m')"
  shows "m' = m\<lparr>bufferOffset := bufferOffset m + 4\<rparr>
       \<and> args = [unat (be32_decode (load_bytes (buffer m) (bufferOffset m) 4)),
                 VIR_NET_MESSAGE_NUM_FDS_MAX]
       \<and> VIR_NET_MESSAGE_NUM_FDS_MAX
            < unat (be32_decode (load_bytes (buffer m) (bufferOffset m) 4))"
  using assms
  by (auto simp add: virNetMessageDecodeNumFDs_def Let_def xdrmem_create_def xdr_u_int_def
      xdr_getpos_def split: if_splits)

theorem decode_num_fds_cursor_on_error_witness:
  "virNetMessageDecodeNumFDs
      (zero_message\<lparr>buffer := [0, 0, 0, 12, 0, 0, 0, 33], bufferLength := 8, bufferOffset := 4\<rparr>)
     = (Some (VIR_ERR_RPC, ''Received too many FDs %d, expected %d maximum'', [33, 32]),
        zero_message\<lparr>buffer := [0, 0, 0, 12, 0, 0, 0, 33], bufferLength := 8, bufferOffset := 8\<rparr>)"
proof -
  let ?m = "zero_message\<lparr>buffer := [0, 0, 0, 12, 0, 0, 0, 33], bufferLength := 8,
                          bufferOffset := 4\<rparr>"
  have run: "virNetMessageDecodeNumFDs ?m
     = (Some (VIR_ERR_RPC, ''Received too many FDs %d, expected %d maximum'', [33, 32]),
        snd (virNetMessageDecodeNumFDs ?m))"
    by (simp add: zero_message_def virNetMessageDecodeNumFDs_def Let_def xdrmem_create_def
        xdr_u_int_def xdr_getpos_def load_bytes_def be32_decode_def VIR_NET_MESSAGE_NUM_FDS_MAX_def)
  from decode_num_fds_cursor_on_error [OF run] run show ?thesis
    by (simp add: zero_message_def)
qed


section \<open>The transmit queue is first in, first out\<close>

lemma queue_of_update:
  "a \<notin> set as \<Longrightarrow> queue_of (h(a := v)) p as = queue_of h p as"
  by (induction as arbitrary: p) auto

lemma queue_last_of:
  "queue_of h p (as @ [a]) \<Longrightarrow> queue_last h p = Some a"
proof (induction as arbitrary: p)
  case Nil
  then show ?case by (subst queue_last.simps) simp
next
  case (Cons b bs)
  then have p: "p = b" and q: "queue_of h (next (h b)) (bs @ [a])" by simp_all
  from q have "next (h b) \<noteq> 0" by (cases bs) auto
  with Cons.IH [OF q] p show ?case by (subst queue_last.simps) simp
qed

lemma queue_of_append_last:
  "queue_of h p (as @ [a]) \<Longrightarrow> distinct (as @ [a, m]) \<Longrightarrow> m \<noteq> 0 \<Longrightarrow> next (h m) = 0 \<Longrightarrow>
   queue_of (h(a := (h a)\<lparr>next := m\<rparr>)) p (as @ [a, m])"
proof (induction as arbitrary: p)
  case Nil
  then show ?case by auto
next
  case (Cons b bs)
  then show ?case by auto
qed

lemma push_queue_of:
  assumes "queue_of h q as" and "distinct (as @ [m])" and "m \<noteq> 0" and "next (h m) = 0"
  shows "\<exists>h'. virNetMessageQueuePush h q m = Some (h', if as = [] then m else q)
            \<and> queue_of h' (if as = [] then m else q) (as @ [m])
            \<and> (\<forall>x. x \<notin> set as \<longrightarrow> h' x = h x)"
proof (cases as rule: rev_cases)
  case Nil
  with assms show ?thesis by (simp add: virNetMessageQueuePush_def)
next
  case (snoc bs b)
  with assms have q: "q \<noteq> 0" by (cases bs) auto
  from assms snoc have last: "queue_last h q = Some b" by (simp add: queue_last_of)
  from assms snoc have "queue_of (h(b := (h b)\<lparr>next := m\<rparr>)) q (bs @ [b, m])"
    by (intro queue_of_append_last) simp_all
  with q last snoc show ?thesis
    by (simp add: virNetMessageQueuePush_def)
qed

lemma push_all_queue_of:
  "queue_of h q as \<Longrightarrow> distinct (as @ ms) \<Longrightarrow> 0 \<notin> set ms \<Longrightarrow> \<forall>a \<in> set ms. next (h a) = 0 \<Longrightarrow>
   \<exists>h' q'. push_all h q ms = Some (h', q') \<and> queue_of h' q' (as @ ms)"
proof (induction ms arbitrary: h q as)
  case Nil
  then show ?case by simp
next
  case (Cons m ms)
  from Cons.prems have "\<exists>h'. virNetMessageQueuePush h q m = Some (h', if as = [] then m else q)
            \<and> queue_of h' (if as = [] then m else q) (as @ [m])
            \<and> (\<forall>x. x \<notin> set as \<longrightarrow> h' x = h x)"
    by (intro push_queue_of) auto
  then obtain h' where push: "virNetMessageQueuePush h q m = Some (h', if as = [] then m else q)"
    and q': "queue_of h' (if as = [] then m else q) (as @ [m])"
    and frame: "\<forall>x. x \<notin> set as \<longrightarrow> h' x = h x"
    by blast
  from Cons.prems frame have "\<forall>a \<in> set ms. next (h' a) = 0" by auto
  with Cons.IH [OF q'] Cons.prems
  have "\<exists>h'' q''. push_all h' (if as = [] then m else q) ms = Some (h'', q'')
          \<and> queue_of h'' q'' ((as @ [m]) @ ms)"
    by auto
  with push show ?case by simp
qed

lemma serve_n_queue_of:
  "queue_of h q (as @ bs) \<Longrightarrow> distinct (as @ bs) \<Longrightarrow>
   \<exists>h' q'. serve_n h q (length as) = ((h', q'), map (\<lambda>a. (a, 0)) as) \<and> queue_of h' q' bs"
proof (induction as arbitrary: h q)
  case Nil
  then show ?case by simp
next
  case (Cons a as)
  let ?h = "h(a := (h a)\<lparr>next := 0\<rparr>)"
  from Cons.prems have serve: "virNetMessageQueueServe h q = (?h, next (h a), a)"
    by (simp add: virNetMessageQueueServe_def)
  from Cons.prems have "queue_of ?h (next (h a)) (as @ bs)"
    by (simp add: queue_of_update)
  moreover from Cons.prems have "distinct (as @ bs)" by simp
  ultimately have "\<exists>h' q'. serve_n ?h (next (h a)) (length as) = ((h', q'), map (\<lambda>a. (a, 0)) as)
      \<and> queue_of h' q' bs"
    by (rule Cons.IH)
  then obtain h' q' where "serve_n ?h (next (h a)) (length as) = ((h', q'), map (\<lambda>a. (a, 0)) as)"
    and "queue_of h' q' bs"
    by blast
  with serve show ?case by simp
qed

text \<open>
  C5. Messages at distinct addresses, none of them null and none of them linked
  into a queue (their \<open>next\<close> links are null, as the caller of \<open>Push\<close> must
  ensure), are pushed in order onto the empty queue. Every push returns, and
  serving as many times as there are messages returns them in the same order,
  each with a null \<open>next\<close> link when it is returned. The queue is then empty, and
  serving the empty queue returns null and changes nothing.
\<close>

theorem queue_fifo:
  assumes "distinct ms" and "0 \<notin> set ms" and "\<forall>a \<in> set ms. next (h a) = 0"
  shows "\<exists>h1 q1 h2. push_all h 0 ms = Some (h1, q1)
           \<and> serve_n h1 q1 (length ms) = ((h2, 0), map (\<lambda>a. (a, 0)) ms)
           \<and> virNetMessageQueueServe h2 0 = (h2, 0, 0)"
proof -
  from assms push_all_queue_of [of h 0 "[]" ms]
  obtain h1 q1 where push: "push_all h 0 ms = Some (h1, q1)" and q: "queue_of h1 q1 ms"
    by auto
  from q assms serve_n_queue_of [of h1 q1 ms "[]"]
  obtain h2 q2 where serve: "serve_n h1 q1 (length ms) = ((h2, q2), map (\<lambda>a. (a, 0)) ms)"
    and "queue_of h2 q2 []"
    by auto
  then have "q2 = 0" by simp
  with push serve show ?thesis
    by (simp add: virNetMessageQueueServe_def)
qed

theorem queue_fifo_witness:
  "\<exists>h1 q1 h2. push_all three_messages 0 [10, 20, 30] = Some (h1, q1)
      \<and> serve_n h1 q1 3 = ((h2, 0), [(10, 0), (20, 0), (30, 0)])
      \<and> virNetMessageQueueServe h2 0 = (h2, 0, 0)"
proof -
  have "distinct [10, 20, 30 :: addr]" and "0 \<notin> set [10, 20, 30 :: addr]"
    and "\<forall>a \<in> set [10, 20, 30]. next (three_messages a) = 0"
    by (simp_all add: three_messages_def zero_message_def)
  then have "\<exists>h1 q1 h2. push_all three_messages 0 [10, 20, 30] = Some (h1, q1)
           \<and> serve_n h1 q1 (length [10, 20, 30 :: addr])
               = ((h2, 0), map (\<lambda>a. (a, 0)) [10, 20, 30])
           \<and> virNetMessageQueueServe h2 0 = (h2, 0, 0)"
    by (rule queue_fifo)
  moreover have "length [10, 20, 30 :: addr] = 3"
    and "map (\<lambda>a. (a, 0 :: addr)) [10, 20, 30 :: addr] = [(10, 0), (20, 0), (30, 0)]"
    by simp_all
  ultimately show ?thesis by (simp only:)
qed



section \<open>The stream operations and the constants\<close>

lemma xdr_u_int_encode:
  "x_op x = XDR_ENCODE \<Longrightarrow>
   xdr_u_int x mem v =
     (if x_handy x < 4 then (False, x, mem, v)
      else (True, x\<lparr>x_handy := x_handy x - 4, x_private := x_private x + 4\<rparr>,
            store_bytes mem (x_private x) (be32_encode v), v))"
  by (simp add: xdr_u_int_def)

lemma length_VIR_REALLOC_N: "length (VIR_REALLOC_N ptr n) = n"
  by (simp add: VIR_REALLOC_N_def)

lemma unat_double_capacity:
  assumes "VIR_NET_MESSAGE_LEN_MAX \<le> bl" and "bl - VIR_NET_MESSAGE_LEN_MAX < 2 ^ 31"
  shows "unat ((of_nat bl - of_nat VIR_NET_MESSAGE_LEN_MAX) * 2 :: u_int)
           = 2 * (bl - VIR_NET_MESSAGE_LEN_MAX)"
proof -
  have "(of_nat bl - of_nat VIR_NET_MESSAGE_LEN_MAX :: u_int) = of_nat (bl - VIR_NET_MESSAGE_LEN_MAX)"
    using assms(1) by (rule of_nat_diff [symmetric])
  then have "((of_nat bl - of_nat VIR_NET_MESSAGE_LEN_MAX) * 2 :: u_int)
               = of_nat (2 * (bl - VIR_NET_MESSAGE_LEN_MAX))"
    by (simp add: mult.commute)
  moreover have "2 * (bl - VIR_NET_MESSAGE_LEN_MAX) < (2 :: nat) ^ 32"
    using assms(2) by simp
  ultimately show ?thesis
    by (simp only: unat_of_nat32)
qed

lemma protocol_ok_bounds:
  assumes "protocol_ok P" and "bl \<le> VIR_NET_MESSAGE_MAX P + VIR_NET_MESSAGE_LEN_MAX"
  shows "bl - VIR_NET_MESSAGE_LEN_MAX < 2 ^ 31" and "bl < 2 ^ 32"
proof -
  from assms have "bl \<le> VIR_NET_MESSAGE_MAX P + 4" and "VIR_NET_MESSAGE_MAX P < 2147483648"
    by (simp_all add: protocol_ok_def VIR_NET_MESSAGE_LEN_MAX_def)
  then show "bl - VIR_NET_MESSAGE_LEN_MAX < 2 ^ 31" and "bl < 2 ^ 32"
    by (simp_all add: VIR_NET_MESSAGE_LEN_MAX_def)
qed

lemma filter_on_fresh_stream:
  assumes "xdrmem_filter f" and "bo \<le> bl" and "bl < 2 ^ 32"
    and "x = xdrmem_create bo (of_nat bl - of_nat bo) XDR_ENCODE"
  shows "x_base (fst (snd (f x mem))) = bo"
    and "bo \<le> x_private (fst (snd (f x mem)))"
    and "x_private (fst (snd (f x mem))) \<le> bl"
    and "length (snd (snd (f x mem))) = length mem"
proof -
  have handy: "unat (of_nat bl - of_nat bo :: u_int) = bl - bo"
    using assms(2,3) by (intro unat_size_diff) simp_all
  have x: "x_base x = bo" "x_private x = bo" "x_handy x = bl - bo"
    by (simp_all add: assms(4) xdrmem_create_def handy)
  obtain ok x' mem' where r: "f x mem = (ok, x', mem')"
    by (cases "f x mem") auto
  from x have "x_base x \<le> x_private x" by simp
  from assms(1) [unfolded xdrmem_filter_def, rule_format, OF this, of mem]
  have "case f x mem of (ok, x', mem') \<Rightarrow>
           x_base x' = x_base x \<and> x_base x' \<le> x_private x' \<and>
           x_private x' + x_handy x' = x_private x + x_handy x \<and> length mem' = length mem" .
  with r x assms(2) show "x_base (fst (snd (f x mem))) = bo"
    and "bo \<le> x_private (fst (snd (f x mem)))"
    and "x_private (fst (snd (f x mem))) \<le> bl"
    and "length (snd (snd (f x mem))) = length mem"
    by simp_all
qed

lemma xdr_header_encode:
  assumes "x_op x = XDR_ENCODE"
  shows "case xdr_virNetMessageHeader x mem hdr of (ok, x', mem', hd') \<Rightarrow>
           hd' = hdr \<and> length mem' = length mem \<and> x_op x' = XDR_ENCODE \<and> x_base x' = x_base x
           \<and> x_private x' + x_handy x' = x_private x + x_handy x
           \<and> x_private x \<le> x_private x'
           \<and> (ok \<longrightarrow> x_private x' = x_private x + 24)"
  using assms
  by (simp add: xdr_virNetMessageHeader_def xdr_u_int_encode Let_def length_store_bytes)

lemma length_word_written:
  assumes "4 \<le> length mem" and "n < 2 ^ 32"
  shows "unat (be32_decode (load_bytes (store_bytes mem 0 (be32_encode (of_nat n))) 0 4)) = n"
proof -
  have "load_bytes (store_bytes mem 0 (be32_encode (of_nat n :: u_int))) 0
          (length (be32_encode (of_nat n :: u_int))) = be32_encode (of_nat n)"
    using assms(1) by (intro load_store_bytes) (simp add: length_be32_encode)
  then show ?thesis
    using assms(2) by (simp add: length_be32_encode be32_decode_encode unat_of_nat32)
qed

lemma encoding_bounds:
  assumes "protocol_ok P" and "encoding P m"
  shows "bufferOffset m \<le> bufferLength m" and "bufferLength m \<le> length (buffer m)"
    and "VIR_NET_MESSAGE_LEN_MAX < bufferLength m"
    and "bufferLength m \<le> VIR_NET_MESSAGE_MAX P + VIR_NET_MESSAGE_LEN_MAX"
    and "bufferLength m < 2 ^ 32"
proof -
  from assms(2) show "bufferOffset m \<le> bufferLength m" and "bufferLength m \<le> length (buffer m)"
    and "VIR_NET_MESSAGE_LEN_MAX < bufferLength m"
    and hi: "bufferLength m \<le> VIR_NET_MESSAGE_MAX P + VIR_NET_MESSAGE_LEN_MAX"
    by (simp_all add: encoding_def)
  from assms(1) hi show "bufferLength m < 2 ^ 32"
    by (rule protocol_ok_bounds)
qed


lemma example_protocol_ok: "protocol_ok example_protocol"
  by (simp add: protocol_ok_def example_protocol_def)

lemma small_protocol_ok: "protocol_ok small_protocol"
  by (simp add: protocol_ok_def small_protocol_def)

lemma count_filter_ok: "xdrmem_filter count_filter"
  by (auto simp add: xdrmem_filter_def count_filter_def xdr_u_int_def length_store_bytes
      split: xdr_op.splits)


section \<open>The header encoder and the descriptor count keep the encoding state\<close>

lemma encode_header_result:
  assumes P: "protocol_ok P" and run: "virNetMessageEncodeHeader P m0 = (r, m1)"
  shows "bufferLength m1 = VIR_NET_MESSAGE_INITIAL P + VIR_NET_MESSAGE_LEN_MAX"
    and "length (buffer m1) = VIR_NET_MESSAGE_INITIAL P + VIR_NET_MESSAGE_LEN_MAX"
    and "bufferOffset m1 \<le> bufferLength m1"
    and "r = None \<Longrightarrow> bufferOffset m1 = VIR_NET_MESSAGE_LEN_MAX + 24"
proof -
  let ?bl = "VIR_NET_MESSAGE_INITIAL P + VIR_NET_MESSAGE_LEN_MAX"
  let ?mem0 = "VIR_REALLOC_N (buffer m0) ?bl"
  let ?x0 = "xdrmem_create 0 (of_nat ?bl) XDR_ENCODE"
  let ?x1 = "?x0\<lparr>x_handy := x_handy ?x0 - 4, x_private := x_private ?x0 + 4\<rparr>"
  let ?mem1 = "store_bytes ?mem0 0 (be32_encode 0)"
  from P have bl: "?bl < 2 ^ 32" "4 \<le> ?bl"
    by (simp_all add: protocol_ok_def VIR_NET_MESSAGE_LEN_MAX_def)
  from bl(1) have "unat (of_nat ?bl :: u_int) = ?bl"
    by (rule unat_of_nat32)
  then have handy: "x_handy ?x0 = ?bl" "x_private ?x0 = 0" "x_base ?x0 = 0" "x_op ?x0 = XDR_ENCODE"
    by (simp_all add: xdrmem_create_def del: of_nat_add)
  have first: "xdr_u_int ?x0 ?mem0 0 = (True, ?x1, ?mem1, 0)"
    using bl(2) by (simp add: xdr_u_int_encode handy del: of_nat_add)
  obtain ok x2 mem2 hd2 where hdr: "xdr_virNetMessageHeader ?x1 ?mem1 (header m0) = (ok, x2, mem2, hd2)"
    by (cases "xdr_virNetMessageHeader ?x1 ?mem1 (header m0)") auto
  have "x_op ?x1 = XDR_ENCODE" by (simp add: handy del: of_nat_add)
  from xdr_header_encode [where mem = ?mem1 and hdr = "header m0", OF this] hdr
  have h: "hd2 = header m0" "length mem2 = ?bl" "x_op x2 = XDR_ENCODE" "x_base x2 = 0"
    "x_private x2 + x_handy x2 = ?bl" "ok \<Longrightarrow> x_private x2 = 28"
    using bl(2) by (simp_all add: handy length_store_bytes length_VIR_REALLOC_N del: of_nat_add)
  show "bufferLength m1 = ?bl" and "length (buffer m1) = ?bl"
    and "bufferOffset m1 \<le> bufferLength m1"
    and "r = None \<Longrightarrow> bufferOffset m1 = VIR_NET_MESSAGE_LEN_MAX + 24"
  proof -
    consider "\<not> ok" | "ok"
      by blast
    then have "bufferLength m1 = ?bl \<and> length (buffer m1) = ?bl \<and> bufferOffset m1 \<le> bufferLength m1
        \<and> (r = None \<longrightarrow> bufferOffset m1 = VIR_NET_MESSAGE_LEN_MAX + 24)"
    proof cases
      case 1
      with run first hdr h show ?thesis
        by (auto simp add: virNetMessageEncodeHeader_def Let_def simp del: of_nat_add)
    next
      case 2
      with h have priv: "x_private x2 = 28" and left: "x_handy x2 = ?bl - 28" and "28 \<le> ?bl"
        by auto
      have pos: "xdr_getpos x2 = 28"
        by (simp add: xdr_getpos_def priv h)
      have setpos: "xdr_setpos x2 0 = (True, x2\<lparr>x_private := 0, x_handy := ?bl\<rparr>)"
        using h by (simp add: xdr_setpos_def Let_def)
      have again: "xdr_u_int (x2\<lparr>x_private := 0, x_handy := ?bl\<rparr>) mem2 28
          = (True, x2\<lparr>x_private := 4, x_handy := ?bl - 4\<rparr>, store_bytes mem2 0 (be32_encode 28), 28)"
        using bl(2) h by (simp add: xdr_u_int_encode)
      from run first hdr 2 pos setpos again h \<open>28 \<le> ?bl\<close> show ?thesis
        by (auto simp add: virNetMessageEncodeHeader_def Let_def length_store_bytes
            VIR_NET_MESSAGE_LEN_MAX_def simp del: of_nat_add)
    qed
    then show "bufferLength m1 = ?bl" and "length (buffer m1) = ?bl"
      and "bufferOffset m1 \<le> bufferLength m1"
      and "r = None \<Longrightarrow> bufferOffset m1 = VIR_NET_MESSAGE_LEN_MAX + 24"
      by simp_all
  qed
qed

lemma encode_num_fds_result:
  assumes "bufferOffset m \<le> bufferLength m" and "bufferLength m < 2 ^ 32"
    and run: "virNetMessageEncodeNumFDs m = (r, m')"
  shows "bufferLength m' = bufferLength m" and "length (buffer m') = length (buffer m)"
    and "bufferOffset m' \<le> bufferLength m'" and "bufferOffset m \<le> bufferOffset m'"
proof -
  have handy: "unat (of_nat (bufferLength m) - of_nat (bufferOffset m) :: u_int)
                 = bufferLength m - bufferOffset m"
    using assms(1,2) by (intro unat_size_diff) simp_all
  from run assms(1)
  have "bufferLength m' = bufferLength m \<and> length (buffer m') = length (buffer m)
      \<and> bufferOffset m' \<le> bufferLength m' \<and> bufferOffset m \<le> bufferOffset m'"
    by (auto simp add: virNetMessageEncodeNumFDs_def Let_def xdrmem_create_def xdr_u_int_def
        xdr_getpos_def handy length_store_bytes split: if_splits)
  then show "bufferLength m' = bufferLength m" and "length (buffer m') = length (buffer m)"
    and "bufferOffset m' \<le> bufferLength m'" and "bufferOffset m \<le> bufferOffset m'"
    by simp_all
qed

lemma encode_header_encoding:
  assumes "protocol_ok P" and "virNetMessageEncodeHeader P m0 = (r, m1)"
  shows "encoding P m1"
  using encode_header_result [OF assms] assms(1)
  by (simp add: encoding_def protocol_ok_def VIR_NET_MESSAGE_LEN_MAX_def)

lemma encode_num_fds_encoding:
  assumes P: "protocol_ok P" and enc: "encoding P m" and run: "virNetMessageEncodeNumFDs m = (r, m')"
  shows "encoding P m'" and "bufferLength m' = bufferLength m"
proof -
  note b = encoding_bounds [OF P enc]
  note res = encode_num_fds_result [OF b(1,5) run]
  from res b show "encoding P m'" by (simp add: encoding_def)
  from res show "bufferLength m' = bufferLength m" by simp
qed

lemma header_then_fds_encoding:
  assumes P: "protocol_ok P" and hdr: "virNetMessageEncodeHeader P m0 = (r1, m1)"
    and m: "m = m1 \<or> virNetMessageEncodeNumFDs m1 = (r2, m)"
  shows "encoding P m"
proof -
  from P hdr have "encoding P m1" by (rule encode_header_encoding)
  with m show ?thesis
    using encode_num_fds_encoding(1) [OF P] by blast
qed

lemma example_header_encoded:
  "virNetMessageEncodeHeader example_protocol zero_message = (None, header_encoded_message)"
proof -
  have "fst (virNetMessageEncodeHeader example_protocol zero_message) = None"
    by (simp add: virNetMessageEncodeHeader_def example_protocol_def zero_message_def
        zero_header_def Let_def xdrmem_create_def xdr_virNetMessageHeader_def xdr_u_int_def
        xdr_getpos_def xdr_setpos_def VIR_NET_MESSAGE_LEN_MAX_def)
  then show ?thesis
    by (simp add: header_encoded_message_def prod_eq_iff)
qed

lemma example_header_cursors:
  "bufferLength header_encoded_message = 65540" "bufferOffset header_encoded_message = 28"
  using encode_header_result [OF example_protocol_ok example_header_encoded]
  by (simp_all add: example_protocol_def VIR_NET_MESSAGE_LEN_MAX_def)


section \<open>The descriptor count encoder\<close>




text \<open>
  The bound on the count is needed in the model because the encoder compares
  and encodes \<open>nfds\<close> after converting it to \<^verbatim>\<open>unsigned int\<close>: on a record whose
  \<open>nfds\<close> field is \<open>2 ^ 32\<close>, which no message built from descriptors reaches, the
  count converts to 0 and the encoder writes the count 0.
\<close>

lemma encode_num_fds_narrowing:
  "nfds big_fds_message = 2 ^ 32
   \<and> virNetMessageEncodeNumFDs big_fds_message = (None, big_fds_message\<lparr>bufferOffset := 8\<rparr>)"
  by (simp add: big_fds_message_def zero_message_def virNetMessageEncodeNumFDs_def Let_def
      VIR_NET_MESSAGE_NUM_FDS_MAX_def xdrmem_create_def xdr_u_int_def xdr_getpos_def
      be32_encode_def)


section \<open>The typed encoder: growth and finalisation\<close>

lemma encode_retry_success:
  "fst (f x (buffer m)) \<Longrightarrow>
   encode_retry P f m x = Some (True, m\<lparr>buffer := snd (snd (f x (buffer m)))\<rparr>, fst (snd (f x (buffer m))))"
  by (subst encode_retry.simps) (simp add: Let_def)

lemma encode_retry_failure_unat:
  assumes "unat ((of_nat (bufferLength m) - of_nat VIR_NET_MESSAGE_LEN_MAX) * 2 :: u_int) = n"
    and "\<not> fst (f x (buffer m))"
  shows "encode_retry P f m x =
     (if VIR_NET_MESSAGE_MAX P < n
      then Some (False, m\<lparr>buffer := snd (snd (f x (buffer m)))\<rparr>, fst (snd (f x (buffer m))))
      else encode_retry P f
             (m\<lparr>bufferLength := n + VIR_NET_MESSAGE_LEN_MAX,
                buffer := VIR_REALLOC_N (snd (snd (f x (buffer m)))) (n + VIR_NET_MESSAGE_LEN_MAX)\<rparr>)
             (xdrmem_create (bufferOffset m)
                (of_nat (n + VIR_NET_MESSAGE_LEN_MAX) - of_nat (bufferOffset m)) XDR_ENCODE))"
  using assms
  by (subst encode_retry.simps) (simp add: Let_def)

lemma encode_retry_failure:
  assumes "VIR_NET_MESSAGE_LEN_MAX \<le> bufferLength m"
    and "bufferLength m - VIR_NET_MESSAGE_LEN_MAX < 2 ^ 31"
    and "\<not> fst (f x (buffer m))"
  shows "encode_retry P f m x =
     (if VIR_NET_MESSAGE_MAX P < 2 * (bufferLength m - VIR_NET_MESSAGE_LEN_MAX)
      then Some (False, m\<lparr>buffer := snd (snd (f x (buffer m)))\<rparr>, fst (snd (f x (buffer m))))
      else encode_retry P f
             (m\<lparr>bufferLength := 2 * (bufferLength m - VIR_NET_MESSAGE_LEN_MAX) + VIR_NET_MESSAGE_LEN_MAX,
                buffer := VIR_REALLOC_N (snd (snd (f x (buffer m))))
                            (2 * (bufferLength m - VIR_NET_MESSAGE_LEN_MAX) + VIR_NET_MESSAGE_LEN_MAX)\<rparr>)
             (xdrmem_create (bufferOffset m)
                (of_nat (2 * (bufferLength m - VIR_NET_MESSAGE_LEN_MAX) + VIR_NET_MESSAGE_LEN_MAX)
                   - of_nat (bufferOffset m)) XDR_ENCODE))"
  using unat_double_capacity [OF assms(1,2)] assms(3)
  by (rule encode_retry_failure_unat)

lemma encode_retry_total:
  assumes P: "protocol_ok P"
  shows "VIR_NET_MESSAGE_LEN_MAX < bufferLength m \<Longrightarrow>
     bufferLength m \<le> VIR_NET_MESSAGE_MAX P + VIR_NET_MESSAGE_LEN_MAX \<Longrightarrow>
     \<exists>ok m' x'. encode_retry P f m x = Some (ok, m', x')
       \<and> bufferOffset m' = bufferOffset m
       \<and> bufferLength m \<le> bufferLength m'
       \<and> bufferLength m' \<le> VIR_NET_MESSAGE_MAX P + VIR_NET_MESSAGE_LEN_MAX
       \<and> (\<not> ok \<longrightarrow> VIR_NET_MESSAGE_MAX P < 2 * (bufferLength m' - VIR_NET_MESSAGE_LEN_MAX))
       \<and> (xdrmem_filter f \<and> bufferOffset m \<le> bufferLength m
            \<and> bufferLength m \<le> length (buffer m)
            \<and> x = xdrmem_create (bufferOffset m)
                    (of_nat (bufferLength m) - of_nat (bufferOffset m)) XDR_ENCODE \<longrightarrow>
            bufferLength m' \<le> length (buffer m')
            \<and> (ok \<longrightarrow> x_base x' = bufferOffset m \<and> bufferOffset m \<le> x_private x'
                        \<and> x_private x' \<le> bufferLength m'))"
proof (induction "VIR_NET_MESSAGE_MAX P + VIR_NET_MESSAGE_LEN_MAX - bufferLength m"
        arbitrary: m x rule: less_induct)
  case less
  note lo = \<open>VIR_NET_MESSAGE_LEN_MAX < bufferLength m\<close>
  note hi = \<open>bufferLength m \<le> VIR_NET_MESSAGE_MAX P + VIR_NET_MESSAGE_LEN_MAX\<close>
  note b = protocol_ok_bounds [OF P hi]
  let ?r = "f x (buffer m)"
  have stream: "x_base (fst (snd ?r)) = bufferOffset m \<and> bufferOffset m \<le> x_private (fst (snd ?r))
      \<and> x_private (fst (snd ?r)) \<le> bufferLength m \<and> length (snd (snd ?r)) = length (buffer m)"
    if "xdrmem_filter f" and "bufferOffset m \<le> bufferLength m"
      and "x = xdrmem_create (bufferOffset m)
                    (of_nat (bufferLength m) - of_nat (bufferOffset m)) XDR_ENCODE"
    using filter_on_fresh_stream [OF that(1,2) b(2) that(3)] by simp
  show ?case
  proof (cases "fst ?r")
    case True
    have res: "encode_retry P f m x = Some (True, m\<lparr>buffer := snd (snd ?r)\<rparr>, fst (snd ?r))"
      using True by (rule encode_retry_success)
    have "bufferLength m \<le> length (snd (snd ?r))
          \<and> x_base (fst (snd ?r)) = bufferOffset m \<and> bufferOffset m \<le> x_private (fst (snd ?r))
          \<and> x_private (fst (snd ?r)) \<le> bufferLength m"
      if "xdrmem_filter f \<and> bufferOffset m \<le> bufferLength m
            \<and> bufferLength m \<le> length (buffer m)
            \<and> x = xdrmem_create (bufferOffset m)
                    (of_nat (bufferLength m) - of_nat (bufferOffset m)) XDR_ENCODE"
      using stream that by simp
    then show ?thesis
      by (intro exI [of _ True] exI [of _ "m\<lparr>buffer := snd (snd ?r)\<rparr>"] exI [of _ "fst (snd ?r)"])
         (simp add: res hi)
  next
    case False
    let ?n = "2 * (bufferLength m - VIR_NET_MESSAGE_LEN_MAX)"
    let ?m = "m\<lparr>bufferLength := ?n + VIR_NET_MESSAGE_LEN_MAX,
                buffer := VIR_REALLOC_N (snd (snd ?r)) (?n + VIR_NET_MESSAGE_LEN_MAX)\<rparr>"
    let ?x = "xdrmem_create (bufferOffset m)
                (of_nat (?n + VIR_NET_MESSAGE_LEN_MAX) - of_nat (bufferOffset m)) XDR_ENCODE"
    have step: "encode_retry P f m x =
        (if VIR_NET_MESSAGE_MAX P < ?n
         then Some (False, m\<lparr>buffer := snd (snd ?r)\<rparr>, fst (snd ?r))
         else encode_retry P f ?m ?x)"
      using lo b(1) False by (intro encode_retry_failure) simp_all
    show ?thesis
    proof (cases "VIR_NET_MESSAGE_MAX P < ?n")
      case True
      with step have res: "encode_retry P f m x = Some (False, m\<lparr>buffer := snd (snd ?r)\<rparr>, fst (snd ?r))"
        by simp
      have "bufferLength m \<le> length (snd (snd ?r))"
        if "xdrmem_filter f \<and> bufferOffset m \<le> bufferLength m
            \<and> bufferLength m \<le> length (buffer m)
            \<and> x = xdrmem_create (bufferOffset m)
                    (of_nat (bufferLength m) - of_nat (bufferOffset m)) XDR_ENCODE"
        using stream that by simp
      then show ?thesis
        by (intro exI [of _ False] exI [of _ "m\<lparr>buffer := snd (snd ?r)\<rparr>"] exI [of _ "fst (snd ?r)"])
           (simp add: res hi True)
    next
      case grow: False
      from lo have bigger: "bufferLength m < ?n + VIR_NET_MESSAGE_LEN_MAX" by simp
      from grow have hi': "bufferLength ?m \<le> VIR_NET_MESSAGE_MAX P + VIR_NET_MESSAGE_LEN_MAX"
        by simp
      from lo have lo': "VIR_NET_MESSAGE_LEN_MAX < bufferLength ?m" by simp
      from bigger hi' have "VIR_NET_MESSAGE_MAX P + VIR_NET_MESSAGE_LEN_MAX - bufferLength ?m
          < VIR_NET_MESSAGE_MAX P + VIR_NET_MESSAGE_LEN_MAX - bufferLength m"
        by simp
      from less.hyps [OF this lo' hi', of ?x]
      obtain ok m' x' where res: "encode_retry P f ?m ?x = Some (ok, m', x')"
        and off: "bufferOffset m' = bufferOffset ?m"
        and len: "bufferLength ?m \<le> bufferLength m'"
        and cap: "bufferLength m' \<le> VIR_NET_MESSAGE_MAX P + VIR_NET_MESSAGE_LEN_MAX"
        and gave_up: "\<not> ok \<longrightarrow> VIR_NET_MESSAGE_MAX P < 2 * (bufferLength m' - VIR_NET_MESSAGE_LEN_MAX)"
        and rest: "xdrmem_filter f \<and> bufferOffset ?m \<le> bufferLength ?m
            \<and> bufferLength ?m \<le> length (buffer ?m)
            \<and> ?x = xdrmem_create (bufferOffset ?m)
                    (of_nat (bufferLength ?m) - of_nat (bufferOffset ?m)) XDR_ENCODE \<longrightarrow>
            bufferLength m' \<le> length (buffer m')
            \<and> (ok \<longrightarrow> x_base x' = bufferOffset ?m \<and> bufferOffset ?m \<le> x_private x'
                        \<and> x_private x' \<le> bufferLength m')"
        by blast
      from step grow res have "encode_retry P f m x = Some (ok, m', x')" by simp
      moreover from off have "bufferOffset m' = bufferOffset m" by simp
      moreover from len bigger have "bufferLength m \<le> bufferLength m'" by simp
      moreover have "bufferLength m' \<le> length (buffer m')
            \<and> (ok \<longrightarrow> x_base x' = bufferOffset m \<and> bufferOffset m \<le> x_private x'
                        \<and> x_private x' \<le> bufferLength m')"
        if "xdrmem_filter f" and "bufferOffset m \<le> bufferLength m"
        using rest that bigger by (simp add: length_VIR_REALLOC_N)
      ultimately show ?thesis using cap gave_up
        by (intro exI [of _ ok] exI [of _ m'] exI [of _ x']) simp
    qed
  qed
qed

lemma encode_length_result:
  assumes "encode_length P m = (r, m')"
  shows "r = None \<Longrightarrow> m' = m\<lparr>buffer := store_bytes (buffer m) 0 (be32_encode (of_nat (bufferOffset m))),
                                bufferLength := bufferOffset m, bufferOffset := 0\<rparr>"
    and "r \<noteq> None \<Longrightarrow> m' = m"
  using assms
  by (auto simp add: encode_length_def Let_def xdrmem_create_def xdr_u_int_def split: if_splits)

lemma encode_length_final:
  assumes fin: "encode_length P m = (r, m')" and "bufferOffset m \<le> bufferLength m"
    and "4 \<le> length (buffer m)" and "bufferOffset m < 2 ^ 32"
  shows "bufferOffset m' \<le> bufferLength m'"
    and "r \<noteq> None \<Longrightarrow> m' = m"
    and "r = None \<Longrightarrow> bufferOffset m' = 0 \<and> bufferLength m' = bufferOffset m
           \<and> unat (be32_decode (load_bytes (buffer m') 0 4)) = bufferLength m'"
proof -
  note res = encode_length_result [OF fin]
  show "r \<noteq> None \<Longrightarrow> m' = m" by (rule res(2))
  show "r = None \<Longrightarrow> bufferOffset m' = 0 \<and> bufferLength m' = bufferOffset m
           \<and> unat (be32_decode (load_bytes (buffer m') 0 4)) = bufferLength m'"
    using res(1) length_word_written [OF assms(3,4)] by simp
  show "bufferOffset m' \<le> bufferLength m'"
    using res assms(2) by (cases r) simp_all
qed

lemma encode_payload_result:
  assumes P: "protocol_ok P" and f: "xdrmem_filter f" and enc: "encoding P m"
  shows "\<exists>ok m3 x3 r m'.
      encode_retry P f m (xdrmem_create (bufferOffset m)
          (of_nat (bufferLength m) - of_nat (bufferOffset m)) XDR_ENCODE) = Some (ok, m3, x3)
      \<and> virNetMessageEncodePayload P m f = Some (r, m')
      \<and> bufferLength m \<le> bufferLength m3 \<and> bufferOffset m3 \<le> bufferLength m3
      \<and> bufferOffset m' \<le> bufferLength m'
      \<and> (r \<noteq> None \<longrightarrow> bufferLength m' = bufferLength m3)
      \<and> (r = None \<longrightarrow> bufferLength m' \<le> bufferLength m3 \<and> bufferOffset m \<le> bufferLength m')
      \<and> (r = None \<longrightarrow> bufferOffset m' = 0
            \<and> unat (be32_decode (load_bytes (buffer m') 0 4)) = bufferLength m')
      \<and> bufferOffset m3 = bufferOffset m
      \<and> (r = None \<longrightarrow> bufferLength m' = bufferOffset m + unat (xdr_getpos x3))"
proof -
  note b = encoding_bounds [OF P enc]
  let ?x = "xdrmem_create (bufferOffset m) (of_nat (bufferLength m) - of_nat (bufferOffset m)) XDR_ENCODE"
  from encode_retry_total [OF P b(3,4), of f ?x] f b(1,2)
  obtain ok m3 x3 where loop: "encode_retry P f m ?x = Some (ok, m3, x3)"
    and off: "bufferOffset m3 = bufferOffset m"
    and grown: "bufferLength m \<le> bufferLength m3"
    and cap: "bufferLength m3 \<le> VIR_NET_MESSAGE_MAX P + VIR_NET_MESSAGE_LEN_MAX"
    and alloc: "bufferLength m3 \<le> length (buffer m3)"
    and stream: "ok \<Longrightarrow> x_base x3 = bufferOffset m \<and> bufferOffset m \<le> x_private x3
                        \<and> x_private x3 \<le> bufferLength m3"
    by (elim exE conjE) simp
  from P cap have lt: "bufferLength m3 < 2 ^ 32"
    by (rule protocol_ok_bounds)
  from b(1) grown off have inv3: "bufferOffset m3 \<le> bufferLength m3" by simp
  show ?thesis
  proof (cases ok)
    case False
    with loop have "virNetMessageEncodePayload P m f
        = Some (Some (VIR_ERR_RPC, ''Unable to encode message payload'', []), m3)"
      by (simp add: virNetMessageEncodePayload_def)
    with loop grown inv3 off show ?thesis by simp
  next
    case True
    from stream [OF True] have s: "x_base x3 = bufferOffset m" "bufferOffset m \<le> x_private x3"
      "x_private x3 \<le> bufferLength m3"
      by simp_all
    let ?pos = "x_private x3"
    from s lt have "x_private x3 - x_base x3 < 2 ^ 32" by simp
    then have "unat (xdr_getpos x3) = x_private x3 - x_base x3"
      unfolding xdr_getpos_def by (rule unat_of_nat32)
    with s off have adv: "bufferOffset m3 + unat (xdr_getpos x3) = ?pos"
      and written: "bufferOffset m + unat (xdr_getpos x3) = ?pos"
      by simp_all
    let ?m4 = "m3\<lparr>bufferOffset := ?pos\<rparr>"
    from loop True adv have run: "virNetMessageEncodePayload P m f = Some (encode_length P ?m4)"
      by (simp add: virNetMessageEncodePayload_def)
    obtain r m' where fin: "encode_length P ?m4 = (r, m')"
      by (cases "encode_length P ?m4") auto
    note res = encode_length_result [OF fin]
    from s lt have pos: "?pos < 2 ^ 32" by simp
    from b(3) grown alloc have four: "4 \<le> length (buffer m3)"
      by (simp add: VIR_NET_MESSAGE_LEN_MAX_def)
    have "bufferOffset m' \<le> bufferLength m'
      \<and> (r \<noteq> None \<longrightarrow> bufferLength m' = bufferLength m3)
      \<and> (r = None \<longrightarrow> bufferLength m' \<le> bufferLength m3 \<and> bufferOffset m \<le> bufferLength m')
      \<and> (r = None \<longrightarrow> bufferOffset m' = 0
            \<and> unat (be32_decode (load_bytes (buffer m') 0 4)) = bufferLength m')
      \<and> (r = None \<longrightarrow> bufferLength m' = bufferOffset m + unat (xdr_getpos x3))"
    proof (cases r)
      case None
      with res(1) have m': "m' = ?m4\<lparr>buffer := store_bytes (buffer ?m4) 0
            (be32_encode (of_nat (bufferOffset ?m4))),
          bufferLength := bufferOffset ?m4, bufferOffset := 0\<rparr>"
        by simp
      from length_word_written [OF four pos] m' s None written show ?thesis by simp
    next
      case (Some e)
      with res(2) have "m' = ?m4" by simp
      with s Some show ?thesis by simp
    qed
    with loop run fin grown inv3 off show ?thesis
      by (intro exI [of _ ok], intro exI [of _ m3], intro exI [of _ x3], intro exI [of _ r],
          intro exI [of _ m']) simp
  qed
qed

lemma encode_payload_raw_result:
  assumes P: "protocol_ok P" and enc: "encoding P m"
    and run: "virNetMessageEncodePayloadRaw P m data = (r, m')"
  shows "bufferOffset m' \<le> bufferLength m'"
    and "r \<noteq> None \<Longrightarrow> bufferLength m \<le> bufferLength m'"
    and "r = None \<Longrightarrow> bufferOffset m' = 0
           \<and> bufferLength m' = bufferOffset m + (case data of None \<Rightarrow> 0 | Some d \<Rightarrow> length d)
           \<and> unat (be32_decode (load_bytes (buffer m') 0 4)) = bufferLength m'"
proof -
  note b = encoding_bounds [OF P enc]
  from b(1) have sub: "size_t_sub (bufferLength m) (bufferOffset m) = bufferLength m - bufferOffset m"
    by (simp add: size_t_sub_def)
  from b have four: "4 \<le> length (buffer m)" and small: "bufferOffset m < 2 ^ 32"
    by (simp_all add: VIR_NET_MESSAGE_LEN_MAX_def)
  define len where "len = (case data of None \<Rightarrow> 0 | Some d \<Rightarrow> length d)"
  consider (plain) "len = 0"
    | (fits) d where "data = Some d" "0 < length d" "\<not> bufferLength m - bufferOffset m < length d"
    | (long) d where "data = Some d" "0 < length d" "bufferLength m - bufferOffset m < length d"
                     "VIR_NET_MESSAGE_MAX P + VIR_NET_MESSAGE_LEN_MAX < bufferOffset m + length d"
    | (grows) d where "data = Some d" "0 < length d" "bufferLength m - bufferOffset m < length d"
                     "\<not> VIR_NET_MESSAGE_MAX P + VIR_NET_MESSAGE_LEN_MAX < bufferOffset m + length d"
    by (cases data) (auto simp add: len_def)
  then have "bufferOffset m' \<le> bufferLength m'
      \<and> (r \<noteq> None \<longrightarrow> bufferLength m \<le> bufferLength m')
      \<and> (r = None \<longrightarrow> bufferOffset m' = 0 \<and> bufferLength m' = bufferOffset m + len
           \<and> unat (be32_decode (load_bytes (buffer m') 0 4)) = bufferLength m')"
  proof cases
    case plain
    with run have fin: "encode_length P m = (r, m')"
      by (cases data) (simp_all add: virNetMessageEncodePayloadRaw_def len_def)
    from encode_length_final [OF fin b(1) four small] plain show ?thesis
      by (cases r) simp_all
  next
    case fits
    let ?m = "m\<lparr>buffer := store_bytes (buffer m) (bufferOffset m) d,
                bufferOffset := bufferOffset m + length d\<rparr>"
    from run fits have fin: "encode_length P ?m = (r, m')"
      by (simp add: virNetMessageEncodePayloadRaw_def Let_def sub)
    from fits b have "bufferOffset ?m \<le> bufferLength ?m" and "4 \<le> length (buffer ?m)"
      and "bufferOffset ?m < 2 ^ 32"
      by (simp_all add: length_store_bytes VIR_NET_MESSAGE_LEN_MAX_def)
    from encode_length_final [OF fin this] fits show ?thesis
      by (cases r) (simp_all add: len_def)
  next
    case long
    with run have "m' = m" and "r \<noteq> None"
      by (auto simp add: virNetMessageEncodePayloadRaw_def Let_def sub)
    with b(1) show ?thesis by auto
  next
    case grows
    let ?n = "bufferOffset m + length d"
    let ?m = "m\<lparr>bufferLength := ?n,
                buffer := store_bytes (VIR_REALLOC_N (buffer m) ?n) (bufferOffset m) d,
                bufferOffset := ?n\<rparr>"
    from run grows have fin: "encode_length P ?m = (r, m')"
      by (simp add: virNetMessageEncodePayloadRaw_def Let_def sub)
    from grows b(1) have more: "bufferLength m < ?n" by simp
    from P have "VIR_NET_MESSAGE_MAX P + VIR_NET_MESSAGE_LEN_MAX < 2 ^ 32"
      by (simp add: protocol_ok_def VIR_NET_MESSAGE_LEN_MAX_def)
    with grows(4) have "?n < 2 ^ 32" by simp
    moreover from more b(3) have "4 \<le> ?n" by (simp add: VIR_NET_MESSAGE_LEN_MAX_def)
    ultimately have "bufferOffset ?m \<le> bufferLength ?m" and "4 \<le> length (buffer ?m)"
      and "bufferOffset ?m < 2 ^ 32"
      by (simp_all add: length_store_bytes length_VIR_REALLOC_N)
    from encode_length_final [OF fin this] grows more show ?thesis
      by (cases r) (simp_all add: len_def)
  qed
  then show "bufferOffset m' \<le> bufferLength m'"
    and "r \<noteq> None \<Longrightarrow> bufferLength m \<le> bufferLength m'"
    and "r = None \<Longrightarrow> bufferOffset m' = 0
           \<and> bufferLength m' = bufferOffset m + (case data of None \<Rightarrow> 0 | Some d \<Rightarrow> length d)
           \<and> unat (be32_decode (load_bytes (buffer m') 0 4)) = bufferLength m'"
    by (simp_all add: len_def)
qed

lemma example_typed_run:
  "fst (the (virNetMessageEncodePayload example_protocol header_encoded_message count_filter)) = None
   \<and> virNetMessageEncodePayload example_protocol header_encoded_message count_filter \<noteq> None
   \<and> bufferLength (snd (the (virNetMessageEncodePayload example_protocol header_encoded_message
                                count_filter))) = 32"
proof -
  let ?x = "xdrmem_create 28 (65540 - 28) XDR_ENCODE"
  have ok: "fst (count_filter ?x (buffer header_encoded_message))"
    by (simp add: count_filter_def xdr_u_int_def xdrmem_create_def)
  have "encode_retry example_protocol count_filter header_encoded_message ?x =
      Some (True, header_encoded_message\<lparr>buffer := snd (snd (count_filter ?x (buffer header_encoded_message)))\<rparr>,
            fst (snd (count_filter ?x (buffer header_encoded_message))))"
    using ok by (rule encode_retry_success)
  then show ?thesis
    by (simp add: virNetMessageEncodePayload_def example_header_cursors count_filter_def
        xdr_u_int_def xdrmem_create_def xdr_getpos_def encode_length_def Let_def example_protocol_def)
qed

lemma example_raw_run:
  "fst (virNetMessageEncodePayloadRaw example_protocol header_encoded_message (Some [1, 2, 3])) = None
   \<and> bufferLength (snd (virNetMessageEncodePayloadRaw example_protocol header_encoded_message
                          (Some [1, 2, 3]))) = 31"
  by (simp add: virNetMessageEncodePayloadRaw_def example_header_cursors size_t_sub_def
      xdr_u_int_def xdrmem_create_def encode_length_def Let_def example_protocol_def)

text \<open>
  C2. On a message that is being encoded (the header encoder leaves every
  message in that state, see \<open>encode_header_encoding\<close>, and the descriptor count
  and every round of growth keep it), with constants that are C \<^verbatim>\<open>int\<close>
  constants: when the marshaller fails on the stream over the free part of the
  buffer, for whatever reason, the typed encoder compares twice the payload
  capacity \<open>bufferLength - 4\<close> with the cap. If it exceeds the cap the encoder
  gives up with the RPC error for the payload (the spec's \<open>PayloadTooLarge\<close>);
  otherwise it behaves as the typed encoder does on the message with the doubled
  payload capacity, what the failed marshaller wrote included, which is again a
  message being encoded: the marshaller is run again on a fresh stream at the
  same cursor. In either case the encoder returns.
\<close>

theorem payload_capacity_doubling:
  assumes P: "protocol_ok P" and enc: "encoding P m"
    and fails: "\<not> fst (f (xdrmem_create (bufferOffset m)
                            (of_nat (bufferLength m) - of_nat (bufferOffset m)) XDR_ENCODE)
                         (buffer m))"
  shows "let mem = snd (snd (f (xdrmem_create (bufferOffset m)
                                  (of_nat (bufferLength m) - of_nat (bufferOffset m)) XDR_ENCODE)
                               (buffer m)));
             newlen = 2 * (bufferLength m - VIR_NET_MESSAGE_LEN_MAX);
             grown = m\<lparr>bufferLength := newlen + VIR_NET_MESSAGE_LEN_MAX,
                       buffer := VIR_REALLOC_N mem (newlen + VIR_NET_MESSAGE_LEN_MAX)\<rparr>
         in virNetMessageEncodePayload P m f =
              (if VIR_NET_MESSAGE_MAX P < newlen
               then Some (Some (VIR_ERR_RPC, ''Unable to encode message payload'', []),
                          m\<lparr>buffer := mem\<rparr>)
               else virNetMessageEncodePayload P grown f)
            \<and> (\<not> VIR_NET_MESSAGE_MAX P < newlen \<longrightarrow> encoding P grown)
            \<and> (\<exists>res. virNetMessageEncodePayload P m f = Some res)"
proof -
  note b = encoding_bounds [OF P enc]
  let ?x = "xdrmem_create (bufferOffset m) (of_nat (bufferLength m) - of_nat (bufferOffset m)) XDR_ENCODE"
  let ?mem = "snd (snd (f ?x (buffer m)))"
  let ?n = "2 * (bufferLength m - VIR_NET_MESSAGE_LEN_MAX)"
  let ?m = "m\<lparr>bufferLength := ?n + VIR_NET_MESSAGE_LEN_MAX,
              buffer := VIR_REALLOC_N ?mem (?n + VIR_NET_MESSAGE_LEN_MAX)\<rparr>"
  have step: "encode_retry P f m ?x =
        (if VIR_NET_MESSAGE_MAX P < ?n
         then Some (False, m\<lparr>buffer := ?mem\<rparr>, fst (snd (f ?x (buffer m))))
         else encode_retry P f ?m
                (xdrmem_create (bufferOffset m)
                   (of_nat (?n + VIR_NET_MESSAGE_LEN_MAX) - of_nat (bufferOffset m)) XDR_ENCODE))"
    using b(3) protocol_ok_bounds(1) [OF P b(4)] fails by (intro encode_retry_failure) simp_all
  have eq: "virNetMessageEncodePayload P m f =
              (if VIR_NET_MESSAGE_MAX P < ?n
               then Some (Some (VIR_ERR_RPC, ''Unable to encode message payload'', []),
                          m\<lparr>buffer := ?mem\<rparr>)
               else virNetMessageEncodePayload P ?m f)"
    by (simp add: virNetMessageEncodePayload_def step del: of_nat_add of_nat_mult)
  have inv: "encoding P ?m" if "\<not> VIR_NET_MESSAGE_MAX P < ?n"
    using that b by (simp add: encoding_def length_VIR_REALLOC_N)
  from encode_retry_total [OF P b(3,4), of f ?x]
  obtain ok m3 x3 where "encode_retry P f m ?x = Some (ok, m3, x3)"
    by blast
  then have "\<exists>res. virNetMessageEncodePayload P m f = Some res"
    by (simp add: virNetMessageEncodePayload_def)
  with eq inv show ?thesis
    by (simp add: Let_def del: of_nat_add of_nat_mult)
qed

theorem payload_capacity_doubling_witness:
  "virNetMessageEncodePayload example_protocol header_encoded_message failing_filter =
     virNetMessageEncodePayload example_protocol
       (header_encoded_message\<lparr>bufferLength := 131076,
          buffer := VIR_REALLOC_N (buffer header_encoded_message) 131076\<rparr>) failing_filter
   \<and> virNetMessageEncodePayload small_protocol
       (snd (virNetMessageEncodeHeader small_protocol zero_message)) failing_filter =
     Some (Some (VIR_ERR_RPC, ''Unable to encode message payload'', []),
           snd (virNetMessageEncodeHeader small_protocol zero_message))"
proof -
  have enc: "encoding example_protocol header_encoded_message"
    using example_protocol_ok example_header_encoded by (rule encode_header_encoding)
  have enc': "encoding small_protocol (snd (virNetMessageEncodeHeader small_protocol zero_message))"
    using small_protocol_ok by (rule encode_header_encoding) (rule prod.collapse [symmetric])
  have len': "bufferLength (snd (virNetMessageEncodeHeader small_protocol zero_message)) = 36"
    using encode_header_result(1) [OF small_protocol_ok prod.collapse [symmetric]]
    by (simp add: small_protocol_def VIR_NET_MESSAGE_LEN_MAX_def)
  have caps: "VIR_NET_MESSAGE_MAX example_protocol = 268435456"
    "VIR_NET_MESSAGE_MAX small_protocol = 48"
    by (simp_all add: example_protocol_def small_protocol_def)
  from payload_capacity_doubling [OF example_protocol_ok enc, of failing_filter]
       payload_capacity_doubling [OF small_protocol_ok enc', of failing_filter]
  show ?thesis
    by (simp add: failing_filter_def Let_def example_header_cursors len' VIR_NET_MESSAGE_LEN_MAX_def
        caps del: of_nat_add of_nat_mult)
qed

text \<open>
  C3. After the header encoder has succeeded, and optionally the descriptor
  count encoder after it, every successful return of the typed encoder (with a
  marshaller built from the stream operations) and of the raw encoder leaves a
  message whose first four bytes are the big-endian encoding of its
  \<open>bufferLength\<close> and whose \<open>bufferOffset\<close> is 0.
\<close>

theorem length_prefix_after_finalisation:
  assumes P: "protocol_ok P" and f: "xdrmem_filter f"
    and hdr: "virNetMessageEncodeHeader P m0 = (None, m1)"
    and m: "m = m1 \<or> virNetMessageEncodeNumFDs m1 = (None, m)"
  shows "(\<forall>m'. virNetMessageEncodePayload P m f = Some (None, m') \<longrightarrow>
            unat (be32_decode (load_bytes (buffer m') 0 4)) = bufferLength m'
            \<and> bufferOffset m' = 0)
       \<and> (\<forall>m'. virNetMessageEncodePayloadRaw P m data = (None, m') \<longrightarrow>
            unat (be32_decode (load_bytes (buffer m') 0 4)) = bufferLength m'
            \<and> bufferOffset m' = 0)"
proof -
  from P hdr m have enc: "encoding P m" by (rule header_then_fds_encoding)
  have typed: "unat (be32_decode (load_bytes (buffer m') 0 4)) = bufferLength m' \<and> bufferOffset m' = 0"
    if "virNetMessageEncodePayload P m f = Some (None, m')" for m'
    using encode_payload_result [OF P f enc] that by auto
  have raw: "unat (be32_decode (load_bytes (buffer m') 0 4)) = bufferLength m' \<and> bufferOffset m' = 0"
    if "virNetMessageEncodePayloadRaw P m data = (None, m')" for m'
    using encode_payload_raw_result(3) [OF P enc that] by simp
  from typed raw show ?thesis by blast
qed

theorem length_prefix_after_finalisation_witness:
  "unat (be32_decode (load_bytes (buffer (snd (the (virNetMessageEncodePayload example_protocol
            header_encoded_message count_filter)))) 0 4)) = 32
   \<and> bufferOffset (snd (the (virNetMessageEncodePayload example_protocol
            header_encoded_message count_filter))) = 0
   \<and> unat (be32_decode (load_bytes (buffer (snd (virNetMessageEncodePayloadRaw example_protocol
            header_encoded_message (Some [1, 2, 3])))) 0 4)) = 31
   \<and> bufferOffset (snd (virNetMessageEncodePayloadRaw example_protocol
            header_encoded_message (Some [1, 2, 3]))) = 0"
proof -
  let ?t = "virNetMessageEncodePayload example_protocol header_encoded_message count_filter"
  let ?r = "virNetMessageEncodePayloadRaw example_protocol header_encoded_message (Some [1, 2, 3])"
  from example_typed_run have t: "?t = Some (None, snd (the ?t))"
    by (cases ?t) (auto simp add: prod_eq_iff)
  from example_raw_run have r: "?r = (None, snd ?r)"
    by (simp add: prod_eq_iff)
  from length_prefix_after_finalisation [OF example_protocol_ok count_filter_ok
         example_header_encoded, of header_encoded_message "Some [1, 2, 3]"] t r
  have "unat (be32_decode (load_bytes (buffer (snd (the ?t))) 0 4)) = bufferLength (snd (the ?t))
      \<and> bufferOffset (snd (the ?t)) = 0
      \<and> unat (be32_decode (load_bytes (buffer (snd ?r)) 0 4)) = bufferLength (snd ?r)
      \<and> bufferOffset (snd ?r) = 0"
    by blast
  with example_typed_run example_raw_run show ?thesis by simp
qed




end
